theory Spec2Isabelle
  imports Main "HOL-Library.List_Lexorder"
begin

section \<open>JavaScript strings and the regular expressions of the validators\<close>

text \<open>
  A JavaScript string is a sequence of UTF-16 code units; a code unit is modelled by its
  number. \<open>js\<close> reads an ASCII literal as such a string.
\<close>

type_synonym jsstr = "nat list"

definition js :: "string \<Rightarrow> jsstr" where
  "js s = map of_char s"

text \<open>
  \<open>String.prototype.trim\<close> removes WhiteSpace and LineTerminator code units from both
  ends: TAB, LF, VT, FF, CR, SP, NBSP, U+1680, U+2000..U+200A, U+2028, U+2029, U+202F,
  U+205F, U+3000 and U+FEFF.
\<close>

definition isWhiteSpace :: "nat \<Rightarrow> bool" where
  "isWhiteSpace c =
     (c = 9 \<or> c = 10 \<or> c = 11 \<or> c = 12 \<or> c = 13 \<or> c = 32 \<or> c = 160 \<or> c = 5760
      \<or> (8192 \<le> c \<and> c \<le> 8202) \<or> c = 8232 \<or> c = 8233 \<or> c = 8239 \<or> c = 8287
      \<or> c = 12288 \<or> c = 65279)"

definition trim :: "jsstr \<Rightarrow> jsstr" where
  "trim s = rev (dropWhile isWhiteSpace (rev (dropWhile isWhiteSpace s)))"

text \<open>
  The regular expressions of the source use literals, character ranges, alternation,
  an optional group and the anchor \<open>^\<close>. \<open>rx_rests ci r s\<close> lists what is left of
  \<open>s\<close> after each way \<open>r\<close> matches a prefix of it; \<open>ci\<close> is the flag \<open>i\<close>. Under
  that flag two code units match when their canonical forms agree; for the ASCII
  letters of these patterns that is ASCII case folding (a code unit from 128 on never
  canonicalises to an ASCII one).
\<close>

datatype rx =
    Chr nat
  | Range nat nat
  | Seq rx rx
  | Alt rx rx
  | Opt rx
  | Eps

definition canonicalize :: "nat \<Rightarrow> nat" where
  "canonicalize c = (if 97 \<le> c \<and> c \<le> 122 then c - 32 else c)"

definition unit_eq :: "bool \<Rightarrow> nat \<Rightarrow> nat \<Rightarrow> bool" where
  "unit_eq ci p c = (if ci then canonicalize p = canonicalize c else p = c)"

fun rx_rests :: "bool \<Rightarrow> rx \<Rightarrow> jsstr \<Rightarrow> jsstr list" where
  "rx_rests ci (Chr p) s = (case s of [] \<Rightarrow> [] | c # cs \<Rightarrow> if unit_eq ci p c then [cs] else [])"
| "rx_rests ci (Range lo hi) s =
     (case s of [] \<Rightarrow> [] | c # cs \<Rightarrow> if lo \<le> c \<and> c \<le> hi then [cs] else [])"
| "rx_rests ci (Seq a b) s = concat (map (rx_rests ci b) (rx_rests ci a s))"
| "rx_rests ci (Alt a b) s = rx_rests ci a s @ rx_rests ci b s"
| "rx_rests ci (Opt a) s = rx_rests ci a s @ [s]"
| "rx_rests ci Eps s = [s]"

definition lit :: "string \<Rightarrow> rx" where
  "lit s = foldr (\<lambda>c r. Seq (Chr (of_char c)) r) s Eps"

text \<open>\<open>re.test(s)\<close> for a pattern anchored with \<open>^\<close>.\<close>

definition rx_test :: "bool \<Rightarrow> rx \<Rightarrow> jsstr \<Rightarrow> bool" where
  "rx_test ci r s = (rx_rests ci r s \<noteq> [])"

section \<open>utils/validators.js: URL safety\<close>

definition http_s :: rx where
  "http_s = Seq (lit ''http'') (Seq (Opt (Chr 115)) (lit ''://''))"

text \<open>The five patterns of \<open>privateNets\<close>, each with its own flag.\<close>

definition privateNets :: "(bool \<times> rx) list" where
  "privateNets =
     [ (True, Seq http_s (Alt (lit ''localhost'') (Alt (lit ''127.0.0.1'') (lit ''0.0.0.0'')))),
       (False, Seq http_s (lit ''10.'')),
       (False, Seq http_s (lit ''192.168.'')),
       (False, Seq http_s (Seq (lit ''172.'')
          (Seq (Alt (Seq (Chr 49) (Range 54 57))
               (Alt (Seq (Chr 50) (Range 48 57)) (Seq (Chr 51) (Range 48 49))))
            (Chr 46)))),
       (True, lit ''javascript:'') ]"

definition isSafeUrl :: "jsstr \<Rightarrow> bool" where
  "isSafeUrl url =
     (let u = trim url in
      if \<not> rx_test True http_s u then False
      else \<not> list_ex (\<lambda>(ci, re). rx_test ci re u) privateNets)"


section \<open>Values and truthiness\<close>

text \<open>
  An optional string is \<open>undefined\<close>/\<open>null\<close> (\<open>None\<close>) or a string. JavaScript takes
  the empty string, \<open>null\<close> and \<open>undefined\<close> as false; \<open>v || d\<close> is \<open>orElse v d\<close>.
\<close>

definition truthy :: "jsstr option \<Rightarrow> bool" where
  "truthy v = (case v of None \<Rightarrow> False | Some s \<Rightarrow> s \<noteq> [])"

definition orElse :: "jsstr option \<Rightarrow> jsstr \<Rightarrow> jsstr" where
  "orElse v d = (case v of None \<Rightarrow> d | Some s \<Rightarrow> if s = [] then d else s)"

text \<open>
  Document ids are ObjectIds, held as their canonical strings (24 hexadecimal digits);
  an id that a request names is a string, which mongoose casts to an ObjectId where a
  query uses it (\<open>castObjectId\<close> below). Dates are milliseconds since the epoch.
\<close>

type_synonym objid = jsstr
type_synonym date = int

text \<open>
  A JavaScript number other than \<open>NaN\<close>, where the routes read one from a query: an
  integer, or one of the two infinities (\<open>parseInt\<close> of a run of several hundred digits
  is \<open>Infinity\<close>). \<open>x * k\<close> for a positive integer \<open>k\<close> is \<open>jsnum_times x k\<close>.
\<close>

datatype jsnum = Num int | PosInfinity | NegInfinity

fun jsnum_times :: "jsnum \<Rightarrow> int \<Rightarrow> jsnum" where
  "jsnum_times (Num n) k = Num (n * k)"
| "jsnum_times PosInfinity k = PosInfinity"
| "jsnum_times NegInfinity k = NegInfinity"

text \<open>
  What the routes call outside this repository: bcrypt, SHA-256, the user-agent parser,
  \<open>parseInt\<close> (\<open>None\<close>: \<open>NaN\<close>), Unicode case mapping, \<open>Date.prototype.toISOString\<close>,
  the page fetch of \<open>fetchPageMeta\<close>, MongoDB's \<open>$dateToString\<close> and what its \<open>$add\<close>
  makes of a date and an infinite number, the \<open>Date\<close> constructor on a string (\<open>None\<close>: an
  invalid date), the cast of a string to an ObjectId (\<open>None\<close>: a CastError; the result is
  the id in its canonical form), and the configured secret and public base URL. They are
  parameters of the model: every theorem holds for all of them.
\<close>

record libs =
  bcrypt_compareSync :: "jsstr \<Rightarrow> jsstr \<Rightarrow> bool"
  bcrypt_hashSync :: "jsstr \<Rightarrow> jsstr"
  sha256_hex :: "jsstr \<Rightarrow> jsstr"
  toISOString :: "date \<Rightarrow> jsstr"
  jwt_secret :: jsstr
  UAParser :: "jsstr \<Rightarrow> jsstr option \<times> jsstr option"
  parseInt10 :: "jsstr \<Rightarrow> jsnum option"
  toUpperCase :: "jsstr \<Rightarrow> jsstr"
  toLowerCase :: "jsstr \<Rightarrow> jsstr"
  fetchPageMeta :: "jsstr \<Rightarrow> jsstr option \<times> jsstr option"
  BASE_PUBLIC_URL :: jsstr
  mongo_dateToString :: "jsstr \<Rightarrow> date \<Rightarrow> jsstr"
  mongo_add_infinite :: "date \<Rightarrow> jsnum \<Rightarrow> date"
  Date_parse :: "jsstr \<Rightarrow> date option"
  castObjectId :: "jsstr \<Rightarrow> objid option"

section \<open>models/Link.js and models/Click.js\<close>

record meta =
  title :: "jsstr option"
  favicon :: "jsstr option"
  meta_notes :: "jsstr option"

text \<open>\<open>timestamps: true\<close> gives a link \<open>createdAt\<close> and \<open>updatedAt\<close>.\<close>

record link =
  link_id :: objid
  link_ownerId :: objid
  code :: jsstr
  longUrl :: jsstr
  domain :: jsstr
  isActive :: bool
  expiresAt :: "date option"
  passwordHash :: "jsstr option"
  maxClicks :: int
  clicksCount :: int
  link_meta :: meta
  createdAt :: date
  updatedAt :: date

record utm =
  source :: "jsstr option"
  medium :: "jsstr option"
  campaign :: "jsstr option"

record click =
  click_id :: objid
  linkId :: objid
  ts :: date
  referer :: jsstr
  country :: "jsstr option"
  ua :: "jsstr option"
  device :: "jsstr option"
  browser :: "jsstr option"
  ipHash :: "jsstr option"
  tzOffset :: "jsnum option"
  click_utm :: "utm option"

record db =
  links :: "link list"
  clicks :: "click list"

text \<open>\<open>Model.findOne(filter)\<close> and \<open>Model.updateOne(filter, update)\<close>: the first match.\<close>

definition findOne :: "('a \<Rightarrow> bool) \<Rightarrow> 'a list \<Rightarrow> 'a option" where
  "findOne P xs = find P xs"

fun updateOne :: "('a \<Rightarrow> bool) \<Rightarrow> ('a \<Rightarrow> 'a) \<Rightarrow> 'a list \<Rightarrow> 'a list" where
  "updateOne P f [] = []"
| "updateOne P f (x # xs) = (if P x then f x # xs else x # updateOne P f xs)"

fun deleteOne :: "('a \<Rightarrow> bool) \<Rightarrow> 'a list \<Rightarrow> 'a list" where
  "deleteOne P [] = []"
| "deleteOne P (x # xs) = (if P x then xs else x # deleteOne P xs)"

section \<open>queue/index.js: click logging\<close>

text \<open>
  The object handed to \<open>enqueueClick\<close>. A field a caller leaves out is \<open>None\<close>; the
  schema then applies its defaults (\<open>ts\<close>: now, \<open>referer\<close>: "direct").
\<close>

record payload =
  p_linkId :: objid
  p_ts :: "date option"
  p_referer :: "jsstr option"
  p_tzOffset :: "jsnum option"
  p_utm :: "utm option"
  p_ipHash :: "jsstr option"
  p_ua :: "jsstr option"
  p_country :: "jsstr option"
  p_device :: "jsstr option"
  p_browser :: "jsstr option"

text \<open>
  \<open>Click.create(payload)\<close> at time \<open>now\<close>; \<open>newId\<close> is the ObjectId the driver
  generates. The schema has the paths below and no other.
\<close>

definition Click_create :: "date \<Rightarrow> objid \<Rightarrow> payload \<Rightarrow> click" where
  "Click_create now newId p =
     \<lparr> click_id = newId,
       linkId = p_linkId p,
       ts = (case p_ts p of None \<Rightarrow> now | Some t \<Rightarrow> t),
       referer = (case p_referer p of None \<Rightarrow> js ''direct'' | Some r \<Rightarrow> r),
       country = p_country p,
       ua = p_ua p,
       device = p_device p,
       browser = p_browser p,
       ipHash = p_ipHash p,
       tzOffset = p_tzOffset p,
       click_utm = p_utm p \<rparr>"

text \<open>
  \<open>Link.updateOne({ _id }, { $inc: { clicksCount: 1 } })\<close> at time \<open>now\<close>; with
  \<open>timestamps: true\<close> the update also stamps \<open>updatedAt\<close>.
\<close>

definition inc_clicksCount :: "date \<Rightarrow> objid \<Rightarrow> link list \<Rightarrow> link list" where
  "inc_clicksCount now i ls =
     updateOne (\<lambda>l. link_id l = i)
       (\<lambda>l. l\<lparr>clicksCount := clicksCount l + 1, updatedAt := now\<rparr>) ls"

text \<open>
  The fallback of \<open>enqueueClick\<close>, run on the next tick: the create at time \<open>t1\<close>, then
  the update at time \<open>t2\<close>.
\<close>

definition inline_fallback :: "date \<Rightarrow> date \<Rightarrow> objid \<Rightarrow> payload \<Rightarrow> db \<Rightarrow> db" where
  "inline_fallback t1 t2 newId p d =
     (let d1 = d\<lparr>clicks := clicks d @ [Click_create t1 newId p]\<rparr>
      in d1\<lparr>links := inc_clicksCount t2 (p_linkId p) (links d1)\<rparr>)"

text \<open>The body of the BullMQ worker on \<open>job.data\<close>; \<open>None\<close> is a job without payload.\<close>

definition worker_body :: "date \<Rightarrow> date \<Rightarrow> objid \<Rightarrow> payload option \<Rightarrow> db \<Rightarrow> db" where
  "worker_body t1 t2 newId job_payload d =
     (case job_payload of
        None \<Rightarrow> d
      | Some p \<Rightarrow>
          (let d1 = d\<lparr>clicks := clicks d @ [Click_create t1 newId p]\<rparr>
           in d1\<lparr>links := inc_clicksCount t2 (p_linkId p) (links d1)\<rparr>))"

text \<open>
  \<open>queue.add\<close> stores the job data as JSON, and the worker is handed what parsing that
  JSON gives. Strings, integers, \<open>null\<close> and absent fields come back as they were, an
  ObjectId and a date as the string that the models cast back to the same value; an
  infinite number is written as \<open>null\<close>.
\<close>

definition json_number :: "jsnum \<Rightarrow> jsnum option" where
  "json_number x = (case x of Num n \<Rightarrow> Some (Num n) | PosInfinity \<Rightarrow> None | NegInfinity \<Rightarrow> None)"

definition json_copy :: "payload \<Rightarrow> payload" where
  "json_copy p =
     p\<lparr>p_tzOffset := (case p_tzOffset p of None \<Rightarrow> None | Some x \<Rightarrow> json_number x)\<rparr>"

text \<open>
  \<open>enqueueClick\<close> schedules work and returns: a job \<open>{ payload }\<close> on the queue when
  \<open>useQueue\<close> is set, the queue exists and \<open>queue.add\<close> succeeds; the fallback on the next
  tick otherwise. \<open>Job\<close> holds the data as the worker will read it.
\<close>

datatype scheduled = Job "payload option" | NextTick payload

definition enqueueClick :: "bool \<Rightarrow> bool \<Rightarrow> bool \<Rightarrow> payload \<Rightarrow> scheduled" where
  "enqueueClick useQueue queue add_ok p =
     (if useQueue \<and> queue then (if add_ok then Job (Some (json_copy p)) else NextTick p)
      else NextTick p)"

fun run_scheduled :: "date \<Rightarrow> date \<Rightarrow> objid \<Rightarrow> scheduled \<Rightarrow> db \<Rightarrow> db" where
  "run_scheduled t1 t2 newId (Job data) d = worker_body t1 t2 newId data d"
| "run_scheduled t1 t2 newId (NextTick p) d = inline_fallback t1 t2 newId p d"


section \<open>utils/crypto.js, utils/parse.js, utils/ua.js, utils/geo.js\<close>

definition comparePassword :: "libs \<Rightarrow> jsstr \<Rightarrow> jsstr option \<Rightarrow> bool" where
  "comparePassword L pwd hash =
     (case hash of
        None \<Rightarrow> False
      | Some h \<Rightarrow> if pwd = [] \<or> h = [] then False else bcrypt_compareSync L pwd h)"

definition hashPassword :: "libs \<Rightarrow> jsstr option \<Rightarrow> jsstr" where
  "hashPassword L pwd = bcrypt_hashSync L (orElse pwd [])"

text \<open>\<open>ipHash(ip)\<close> at time \<open>now\<close>: 32 hex digits of SHA-256 over ip, secret and day.\<close>

definition ip_hash :: "libs \<Rightarrow> date \<Rightarrow> jsstr \<Rightarrow> jsstr" where
  "ip_hash L now ip =
     take 32 (sha256_hex L (ip @ js ''|'' @ jwt_secret L @ js ''|'' @ take 10 (toISOString L now)))"

definition slice64 :: "jsstr option \<Rightarrow> jsstr option" where
  "slice64 v = (case v of None \<Rightarrow> None | Some s \<Rightarrow> if s = [] then None else Some (take 64 s))"

definition parseUTM :: "jsstr option \<Rightarrow> jsstr option \<Rightarrow> jsstr option \<Rightarrow> utm option" where
  "parseUTM utm_source utm_medium utm_campaign =
     (let obj = \<lparr> source = slice64 utm_source, medium = slice64 utm_medium,
                   campaign = slice64 utm_campaign \<rparr>
      in if source obj = None \<and> medium obj = None \<and> campaign obj = None then None
         else Some obj)"

definition parseUA :: "libs \<Rightarrow> jsstr \<Rightarrow> jsstr \<times> jsstr" where
  "parseUA L s =
     (let p = UAParser L s;
          dev = orElse (fst p) (js ''desktop'')
      in (orElse (Some dev) (js ''other''), orElse (snd p) (js ''Unknown'')))"

definition getCountryFromHeaders ::
  "libs \<Rightarrow> jsstr option \<Rightarrow> jsstr option \<Rightarrow> jsstr option \<Rightarrow> jsstr option" where
  "getCountryFromHeaders L cf vercel geo =
     (let h = (if truthy cf then cf else if truthy vercel then vercel
               else if truthy geo then geo else None)
      in case h of
           None \<Rightarrow> None
         | Some v \<Rightarrow> (let u = toUpperCase L v in if u = [] then None else Some u))"

section \<open>routes/redirect.routes.js\<close>

text \<open>
  What the handler reads of a request. A query parameter or header is absent or a
  string; \<open>signedCookies\<close> holds the cookies whose signature the cookie parser accepted.
\<close>

record request =
  params_code :: "jsstr option"
  signedCookies :: "jsstr \<Rightarrow> jsstr option"
  query_pw :: "jsstr option"
  query_ok :: "jsstr option"
  query_tzOffset :: "jsstr option"
  query_utm_source :: "jsstr option"
  query_utm_medium :: "jsstr option"
  query_utm_campaign :: "jsstr option"
  header_referer :: "jsstr option"
  header_x_forwarded_for :: "jsstr option"
  socket_remoteAddress :: "jsstr option"
  header_user_agent :: "jsstr option"
  header_cf_ipcountry :: "jsstr option"
  header_x_vercel_ip_country :: "jsstr option"
  header_x_geo_country :: "jsstr option"

text \<open>
  \<open>errorPage\<close> fills an HTML template with title, subtitle and code; the page is kept as
  these three. A body can also be plain text. A response is a body sent with a status, or
  a redirect with a status, a target and the cookies set before it.
\<close>

datatype page = ErrorPage jsstr jsstr nat | PlainText jsstr

datatype response = Send nat page | Redirect nat jsstr "(jsstr \<times> jsstr) list"

fun status :: "response \<Rightarrow> nat" where
  "status (Send n p) = n"
| "status (Redirect n u cs) = n"

definition page404 :: page where
  "page404 = ErrorPage (js ''Link not found'')
     (js ''This short link is invalid or has been disabled.'') 404"

definition page410 :: page where
  "page410 = ErrorPage (js ''Link expired'') (js ''The link has passed its expiry date.'') 410"

definition page429 :: page where
  "page429 = ErrorPage (js ''Max clicks reached'') (js ''This link is no longer available.'') 429"

text \<open>The guards of the handler, as the source writes them.\<close>

definition expired :: "date \<Rightarrow> link \<Rightarrow> bool" where
  "expired now l = (case expiresAt l of None \<Rightarrow> False | Some e \<Rightarrow> e < now)"

definition capped :: "link \<Rightarrow> bool" where
  "capped l = (maxClicks l \<noteq> 0 \<and> clicksCount l \<ge> maxClicks l)"

definition key_char :: "nat \<Rightarrow> bool" where
  "key_char c = ((97 \<le> c \<and> c \<le> 122) \<or> (65 \<le> c \<and> c \<le> 90) \<or> (48 \<le> c \<and> c \<le> 57)
                 \<or> c = 95 \<or> c = 45)"

definition cookieKey :: "objid \<Rightarrow> jsstr" where
  "cookieKey i = filter key_char (js ''sl_pw_ok_'' @ i)"

definition unlock_url :: "jsstr \<Rightarrow> jsstr" where
  "unlock_url c = js ''/r/'' @ c @ js ''/unlock''"

text \<open>The password gate: \<open>Some r\<close> when it answers itself, \<open>None\<close> when it lets through.\<close>

definition password_gate :: "libs \<Rightarrow> link \<Rightarrow> jsstr \<Rightarrow> request \<Rightarrow> response option" where
  "password_gate L l c rq =
     (if truthy (passwordHash l) then
        (let key = cookieKey (link_id l);
             okCookie = (signedCookies rq key = Some (js ''1''));
             pw = orElse (query_pw rq) [];
             okPw = (if pw \<noteq> [] then comparePassword L pw (passwordHash l) else False);
             cameBackOk = (query_ok rq = Some (js ''1''))
         in if \<not> okCookie \<and> \<not> okPw then Some (Redirect 302 (unlock_url c) [])
            else if pw \<noteq> [] \<and> \<not> okPw then Some (Redirect 302 (unlock_url c @ js ''?e=1'') [])
            else if okPw \<and> \<not> okCookie \<and> \<not> cameBackOk
              then Some (Redirect 302 (js ''/r/'' @ c @ js ''?ok=1'') [(key, js ''1'')])
            else None)
      else None)"

definition client_ip :: "request \<Rightarrow> jsstr" where
  "client_ip rq =
     (let first = (case header_x_forwarded_for rq of
                     None \<Rightarrow> []
                   | Some h \<Rightarrow> trim (takeWhile (\<lambda>c. c \<noteq> 44) h))
      in if first \<noteq> [] then first
         else orElse (socket_remoteAddress rq) (js ''0.0.0.0''))"

definition click_payload :: "libs \<Rightarrow> date \<Rightarrow> link \<Rightarrow> request \<Rightarrow> payload" where
  "click_payload L now l rq =
     (let referer = orElse (header_referer rq) (js ''direct'');
          tzOffset = (case parseInt10 L (orElse (query_tzOffset rq) (js ''0'')) of
                        None \<Rightarrow> Num 0 | Some n \<Rightarrow> n);
          utm = parseUTM (query_utm_source rq) (query_utm_medium rq) (query_utm_campaign rq);
          ip = client_ip rq;
          uaStr = orElse (header_user_agent rq) [];
          ipH = ip_hash L now ip;
          country = getCountryFromHeaders L (header_cf_ipcountry rq)
                      (header_x_vercel_ip_country rq) (header_x_geo_country rq);
          parsed = parseUA L uaStr
      in \<lparr> p_linkId = link_id l, p_ts = None, p_referer = Some referer,
           p_tzOffset = Some tzOffset, p_utm = utm, p_ipHash = Some ipH, p_ua = Some uaStr,
           p_country = country, p_device = Some (fst parsed), p_browser = Some (snd parsed) \<rparr>)"

text \<open>
  The handler of \<open>GET /r/:code\<close>: the response and the payload handed to
  \<open>enqueueClick\<close>, if any.
\<close>

definition redirect_get :: "libs \<Rightarrow> date \<Rightarrow> link list \<Rightarrow> request \<Rightarrow> response \<times> payload option" where
  "redirect_get L now ls rq =
     (let c = trim (orElse (params_code rq) []) in
      case findOne (\<lambda>l. code l = c) ls of
        None \<Rightarrow> (Send 404 page404, None)
      | Some l \<Rightarrow>
          if \<not> isActive l then (Send 404 page404, None)
          else if expired now l then (Send 410 page410, None)
          else if capped l then (Send 429 page429, None)
          else (case password_gate L l c rq of
                  Some r \<Rightarrow> (r, None)
                | None \<Rightarrow> (Redirect 302 (longUrl l) [], Some (click_payload L now l rq))))"

text \<open>
  The route: \<open>r.get("/:code", redirectLimiter, perLinkLimiter(...), handler)\<close>. A rate
  limiter (express-rate-limit) either answers the request itself (\<open>Some\<close>) or passes
  it on (\<open>None\<close>); which of the two is decided by its counters, outside the repository.
\<close>

type_synonym limiter = "request \<Rightarrow> response option"

definition redirect_route ::
  "limiter \<Rightarrow> limiter \<Rightarrow> libs \<Rightarrow> date \<Rightarrow> link list \<Rightarrow> request
     \<Rightarrow> response \<times> payload option" where
  "redirect_route redirectLimiter perLinkLimiter L now ls rq =
     (case redirectLimiter rq of
        Some r \<Rightarrow> (r, None)
      | None \<Rightarrow>
          (case perLinkLimiter rq of
             Some r \<Rightarrow> (r, None)
           | None \<Rightarrow> redirect_get L now ls rq))"

section \<open>utils/validators.js: what the link schemas let through\<close>

text \<open>
  \<open>schema.validate(body)\<close> gives an error message or a value. Joi itself is outside the
  repository, so its result is an input of the handlers; the fields of a value are those
  of the schema. An optional field is absent (\<open>None\<close>); one that allows \<open>null\<close> is absent,
  \<open>null\<close> (\<open>Some None\<close>) or a value.
\<close>

record create_value =
  cv_longUrl :: jsstr
  cv_code :: "jsstr option"
  cv_notes :: "jsstr option"
  cv_expiresAt :: "date option"
  cv_password :: "jsstr option"
  cv_maxClicks :: int
  cv_domain :: "jsstr option"

record update_value =
  uv_longUrl :: "jsstr option"
  uv_notes :: "jsstr option option"
  uv_isActive :: "bool option"
  uv_expiresAt :: "date option option"
  uv_password :: "jsstr option option"
  uv_maxClicks :: "int option"
  uv_domain :: "jsstr option option"
  uv_code :: "jsstr option"

text \<open>The pattern of \<open>slug\<close>: \<open>/^[a-zA-Z0-9_-]{4,32}$/\<close>.\<close>

definition slug :: "jsstr \<Rightarrow> bool" where
  "slug c = (4 \<le> length c \<and> length c \<le> 32 \<and> list_all key_char c)"

section \<open>routes/links.routes.js\<close>

text \<open>
  A JSON reply: \<open>{ message }\<close> with a status, or a link document with its short URL.
  \<open>Thrown\<close> stands for a handler that throws and so sends nothing itself.
\<close>

datatype reply = Message nat jsstr | LinkJson link jsstr | Thrown

definition buildShortUrl :: "libs \<Rightarrow> link \<Rightarrow> jsstr" where
  "buildShortUrl L doc =
     (if domain doc \<noteq> [] then js ''https://'' @ domain doc else BASE_PUBLIC_URL L)
     @ js ''/r/'' @ code doc"

text \<open>
  \<open>do { code = genCode(); } while (await Link.findOne({ code }))\<close>: \<open>gen n\<close> is what the
  \<open>n\<close>-th call of \<open>genCode\<close> returns. The loop need not end; not returning is \<open>None\<close>.
\<close>

partial_function (option) fresh_code :: "(nat \<Rightarrow> jsstr) \<Rightarrow> link list \<Rightarrow> nat \<Rightarrow> jsstr option" where
  "fresh_code gen ls n =
     (if findOne (\<lambda>l. code l = gen n) ls \<noteq> None then fresh_code gen ls (Suc n)
      else Some (gen n))"

declare fresh_code.simps [code]

text \<open>The code of a new link: the reply that ends the request, or the code to use.\<close>

definition choose_code :: "(nat \<Rightarrow> jsstr) \<Rightarrow> jsstr \<Rightarrow> link list \<Rightarrow> (reply + jsstr) option" where
  "choose_code gen c ls =
     (if c = [] then map_option Inr (fresh_code gen ls 0)
      else if findOne (\<lambda>l. code l = c) ls \<noteq> None
        then Some (Inl (Message 409 (js ''Code already taken'')))
      else Some (Inr c))"

text \<open>\<open>Link.create\<close> at time \<open>now\<close> with the generated id \<open>newId\<close>; the schema's defaults.\<close>

definition new_link :: "libs \<Rightarrow> date \<Rightarrow> objid \<Rightarrow> objid \<Rightarrow> jsstr \<Rightarrow> create_value \<Rightarrow> link" where
  "new_link L now newId user c v =
     (let m = fetchPageMeta L (cv_longUrl v) in
      \<lparr> link_id = newId,
        link_ownerId = user,
        code = c,
        longUrl = cv_longUrl v,
        domain = toLowerCase L (trim (orElse (cv_domain v) [])),
        isActive = True,
        expiresAt = cv_expiresAt v,
        passwordHash = (if truthy (cv_password v) then Some (hashPassword L (cv_password v))
                        else None),
        maxClicks = cv_maxClicks v,
        clicksCount = 0,
        link_meta = \<lparr> title = fst m, favicon = snd m,
                      meta_notes = Some (orElse (cv_notes v) []) \<rparr>,
        createdAt = now,
        updatedAt = now \<rparr>)"

text \<open>\<open>POST /api/links\<close> for the authenticated user: the reply and the links afterwards.\<close>

definition post_link ::
  "libs \<Rightarrow> (nat \<Rightarrow> jsstr) \<Rightarrow> date \<Rightarrow> objid \<Rightarrow> objid \<Rightarrow> jsstr + create_value \<Rightarrow> link list
     \<Rightarrow> (reply \<times> link list) option" where
  "post_link L gen now newId user validated ls =
     (case validated of
        Inl msg \<Rightarrow> Some (Message 400 msg, ls)
      | Inr v \<Rightarrow>
          if \<not> isSafeUrl (cv_longUrl v) then Some (Message 400 (js ''Unsafe URL''), ls)
          else (case choose_code gen (trim (orElse (cv_code v) [])) ls of
                  None \<Rightarrow> None
                | Some (Inl r) \<Rightarrow> Some (r, ls)
                | Some (Inr c) \<Rightarrow>
                    (let doc = new_link L now newId user c v
                     in Some (LinkJson doc (buildShortUrl L doc), ls @ [doc]))))"

text \<open>
  The \<open>$set\<close> of \<open>PATCH /api/links/:id\<close> applied to a link at time \<open>now\<close>. \<open>password\<close>
  becomes \<open>passwordHash\<close>, the domain is lower-cased, title and favicon are refreshed when
  the long URL is given. \<open>notes\<close> is no path of the link schema and is not stored.
\<close>

definition apply_set :: "libs \<Rightarrow> date \<Rightarrow> update_value \<Rightarrow> link \<Rightarrow> link" where
  "apply_set L now v l =
     (let m = (if truthy (uv_longUrl v) then fetchPageMeta L (orElse (uv_longUrl v) [])
               else (None, None))
      in l\<lparr> longUrl := (case uv_longUrl v of None \<Rightarrow> longUrl l | Some u \<Rightarrow> u),
             isActive := (case uv_isActive v of None \<Rightarrow> isActive l | Some b \<Rightarrow> b),
             expiresAt := (case uv_expiresAt v of None \<Rightarrow> expiresAt l | Some e \<Rightarrow> e),
             passwordHash := (case uv_password v of
                                None \<Rightarrow> passwordHash l
                              | Some pw \<Rightarrow> if truthy pw then Some (hashPassword L pw) else None),
             maxClicks := (case uv_maxClicks v of None \<Rightarrow> maxClicks l | Some n \<Rightarrow> n),
             domain := (case uv_domain v of
                          None \<Rightarrow> domain l
                        | Some dm \<Rightarrow> toLowerCase L (orElse dm [])),
             code := (case uv_code v of None \<Rightarrow> code l | Some c \<Rightarrow> c),
             link_meta := (link_meta l)
               \<lparr> title := (if truthy (fst m) then fst m else title (link_meta l)),
                 favicon := (if truthy (snd m) then snd m else favicon (link_meta l)) \<rparr>,
             updatedAt := now \<rparr>)"

text \<open>
  \<open>PATCH /api/links/:id\<close> for the authenticated user. The uniqueness check compares
  \<open>String(exists._id)\<close> with the parameter as strings; \<open>findOneAndUpdate\<close> casts the
  parameter to an ObjectId and throws when it is none.
\<close>

definition patch_link ::
  "libs \<Rightarrow> date \<Rightarrow> objid \<Rightarrow> jsstr \<Rightarrow> jsstr + update_value \<Rightarrow> link list \<Rightarrow> reply \<times> link list" where
  "patch_link L now user params_id validated ls =
     (case validated of
        Inl msg \<Rightarrow> (Message 400 msg, ls)
      | Inr v \<Rightarrow>
          if truthy (uv_longUrl v) \<and> \<not> isSafeUrl (orElse (uv_longUrl v) [])
            then (Message 400 (js ''Unsafe URL''), ls)
          else if truthy (uv_code v) \<and>
                  (case findOne (\<lambda>l. code l = orElse (uv_code v) []) ls of
                     None \<Rightarrow> False
                   | Some e \<Rightarrow> link_id e \<noteq> params_id)
            then (Message 409 (js ''Code already taken''), ls)
          else (case castObjectId L params_id of
                  None \<Rightarrow> (Thrown, ls)
                | Some i \<Rightarrow>
                    (case findOne (\<lambda>l. link_id l = i \<and> link_ownerId l = user) ls of
                       None \<Rightarrow> (Message 404 (js ''Not found''), ls)
                     | Some l \<Rightarrow>
                         (let doc = apply_set L now v l
                          in (LinkJson doc (buildShortUrl L doc),
                              updateOne (\<lambda>l. link_id l = i \<and> link_ownerId l = user)
                                (apply_set L now v) ls)))))"

section \<open>routes/auth.routes.js: POST /api/auth/forgot\<close>

record user =
  user_id :: objid
  user_name :: jsstr
  email :: jsstr
  user_passwordHash :: jsstr
  emailVerified :: bool
  verifyCode :: "jsstr option"
  verifyCodeExpires :: "date option"
  resetCode :: "jsstr option"
  resetCodeExpires :: "date option"
  role :: jsstr
  user_createdAt :: date
  user_updatedAt :: date

text \<open>
  A mail handed to \<open>sendMail\<close>: recipient, subject and what \<open>codeEmailTemplate\<close> is
  given (its text and HTML are not expanded).
\<close>

record mail =
  mail_to :: jsstr
  mail_subject :: jsstr
  mail_title :: jsstr
  mail_code :: jsstr
  mail_hint :: jsstr

text \<open>The JSON of the auth routes: a status, \<open>message\<close>, and \<open>devCode\<close> when present.\<close>

datatype auth_reply = AuthJson nat jsstr "jsstr option"

definition RESET_CODE_EXP_MIN :: int where
  "RESET_CODE_EXP_MIN = 10"

definition addMinutes :: "date \<Rightarrow> int \<Rightarrow> date" where
  "addMinutes d mins = d + mins * 60 * 1000"

text \<open>
  \<open>POST /forgot\<close>. \<open>validated\<close> is what \<open>forgotSchema.validate\<close> gives (an error message
  or the email), \<open>digits\<close> what \<open>sixDigits()\<close> returns, \<open>smtp_ok\<close> whether \<open>sendMail\<close>
  returns rather than throws. The result is the reply, the users afterwards and the mails
  handed to the mailer.
\<close>

definition forgot ::
  "bool \<Rightarrow> libs \<Rightarrow> date \<Rightarrow> jsstr \<Rightarrow> bool \<Rightarrow> jsstr + jsstr \<Rightarrow> user list
     \<Rightarrow> auth_reply \<times> user list \<times> mail list" where
  "forgot DEV_MAIL L now digits smtp_ok validated users =
     (case validated of
        Inl msg \<Rightarrow> (AuthJson 400 msg None, users, [])
      | Inr e \<Rightarrow>
          (let em = toLowerCase L (trim e) in
           case findOne (\<lambda>u. email u = em) users of
             None \<Rightarrow>
               (AuthJson 200 (js ''If the email exists, a code has been sent.'') None, users, [])
           | Some u \<Rightarrow>
               (let users' = updateOne (\<lambda>x. user_id x = user_id u)
                      (\<lambda>x. x\<lparr> resetCode := Some digits,
                               resetCodeExpires := Some (addMinutes now RESET_CODE_EXP_MIN),
                               user_updatedAt := now \<rparr>) users;
                    sent = (if DEV_MAIL then []
                            else if smtp_ok
                              then [\<lparr> mail_to = email u,
                                      mail_subject = js ''Your password reset code'',
                                      mail_title = js ''Reset your password'',
                                      mail_code = digits,
                                      mail_hint = js ''Use this code on the reset page.'' \<rparr>]
                            else [])
                in (AuthJson 200 (js ''If the email exists, a code has been sent.'')
                      (if DEV_MAIL then Some digits else None),
                    users', sent))))"

section \<open>routes/analytics.routes.js: the overview\<close>

datatype range_type = Hours | Days

record rng =
  rng_type :: range_type
  rng_hours :: "int option"
  rng_days :: int
  rng_label :: jsstr

definition MS_PER_MIN :: int where "MS_PER_MIN = 60 * 1000"
definition MS_PER_HOUR :: int where "MS_PER_HOUR = 60 * MS_PER_MIN"
definition MS_PER_DAY :: int where "MS_PER_DAY = 24 * MS_PER_HOUR"

definition parseRange :: "libs \<Rightarrow> jsstr option \<Rightarrow> rng" where
  "parseRange L r0 =
     (let r = toLowerCase L (orElse r0 (js ''7d'')) in
      if r = js ''24h''
        then \<lparr> rng_type = Hours, rng_hours = Some 24, rng_days = 1, rng_label = js ''24h'' \<rparr>
      else if r = js ''30d''
        then \<lparr> rng_type = Days, rng_hours = None, rng_days = 30, rng_label = js ''30d'' \<rparr>
      else \<lparr> rng_type = Days, rng_hours = None, rng_days = 7, rng_label = js ''7d'' \<rparr>)"

definition dateFormatForRange :: "rng \<Rightarrow> jsstr" where
  "dateFormatForRange r = (if rng_type r = Hours then js ''%Y-%m-%d %H:00'' else js ''%Y-%m-%d'')"

definition window :: "rng \<Rightarrow> int" where
  "window r = (if rng_type r = Hours
               then (case rng_hours r of None \<Rightarrow> 24 | Some h \<Rightarrow> h) * MS_PER_HOUR
               else rng_days r * MS_PER_DAY)"

text \<open>The six filters of a query, and the Click filter \<open>commonFiltersFromQuery\<close> makes.\<close>

record click_filters =
  cf_source :: "jsstr option"
  cf_medium :: "jsstr option"
  cf_campaign :: "jsstr option"
  cf_country :: "jsstr option"
  cf_device :: "jsstr option"
  cf_browser :: "jsstr option"

definition given :: "jsstr option \<Rightarrow> jsstr option" where
  "given v = (if truthy v then v else None)"

definition commonFiltersFromQuery :: "libs \<Rightarrow> click_filters \<Rightarrow> click_filters" where
  "commonFiltersFromQuery L q =
     \<lparr> cf_source = given (cf_source q),
       cf_medium = given (cf_medium q),
       cf_campaign = given (cf_campaign q),
       cf_country = map_option (toUpperCase L) (given (cf_country q)),
       cf_device = given (cf_device q),
       cf_browser = given (cf_browser q) \<rparr>"

text \<open>A click matches \<open>{ path: value }\<close> when it has the value at the path.\<close>

definition has :: "jsstr option \<Rightarrow> jsstr option \<Rightarrow> bool" where
  "has want field = (case want of None \<Rightarrow> True | Some s \<Rightarrow> field = Some s)"

definition filters_match :: "click_filters \<Rightarrow> click \<Rightarrow> bool" where
  "filters_match f c =
     (has (cf_source f) (case click_utm c of None \<Rightarrow> None | Some u \<Rightarrow> source u) \<and>
      has (cf_medium f) (case click_utm c of None \<Rightarrow> None | Some u \<Rightarrow> medium u) \<and>
      has (cf_campaign f) (case click_utm c of None \<Rightarrow> None | Some u \<Rightarrow> campaign u) \<and>
      has (cf_country f) (country c) \<and>
      has (cf_device f) (device c) \<and>
      has (cf_browser f) (browser c))"

definition matchNow :: "objid list \<Rightarrow> date \<Rightarrow> click_filters \<Rightarrow> click \<Rightarrow> bool" where
  "matchNow linkIds since f c = (linkId c \<in> set linkIds \<and> ts c \<ge> since \<and> filters_match f c)"

definition matchPrev :: "objid list \<Rightarrow> date \<Rightarrow> date \<Rightarrow> click_filters \<Rightarrow> click \<Rightarrow> bool" where
  "matchPrev linkIds sincePrev since f c =
     (linkId c \<in> set linkIds \<and> ts c \<ge> sincePrev \<and> ts c < since \<and> filters_match f c)"

text \<open>
  \<open>{ $group: { _id: key, clicks: { $sum: 1 } } }\<close>: one row for each key that occurs,
  with the number of documents that have it.
\<close>

definition group_count :: "('a \<Rightarrow> 'k) \<Rightarrow> 'a list \<Rightarrow> ('k \<times> nat) list" where
  "group_count key xs =
     map (\<lambda>k. (k, length (filter (\<lambda>x. key x = k) xs))) (remdups (map key xs))"

text \<open>\<open>{ $add: ["$ts", offset] }\<close>: the date shifted by the milliseconds.\<close>

definition mongo_add :: "libs \<Rightarrow> date \<Rightarrow> jsnum \<Rightarrow> date" where
  "mongo_add L t x = (case x of Num n \<Rightarrow> t + n | PosInfinity \<Rightarrow> mongo_add_infinite L t x
                      | NegInfinity \<Rightarrow> mongo_add_infinite L t x)"

text \<open>
  The time series: \<open>$addFields\<close> of the local time, \<open>$group\<close> by its \<open>$dateToString\<close>,
  \<open>$sort\<close> by the day.
\<close>

definition byDay_aggregate :: "libs \<Rightarrow> jsnum \<Rightarrow> jsstr \<Rightarrow> click list \<Rightarrow> (jsstr \<times> nat) list" where
  "byDay_aggregate L tzMin fmt matched =
     sort_key fst
       (group_count
          (\<lambda>c. mongo_dateToString L fmt (mongo_add L (ts c) (jsnum_times tzMin MS_PER_MIN)))
          matched)"

text \<open>\<open>{ $group: { _id: null, clicks: { $sum: 1 } } }\<close>, then \<open>agg[0]?.clicks || 0\<close>.\<close>

definition totals_aggregate :: "click list \<Rightarrow> (unit \<times> nat) list" where
  "totals_aggregate matched = group_count (\<lambda>c. ()) matched"

definition first_clicks :: "(unit \<times> nat) list \<Rightarrow> nat" where
  "first_clicks agg = (case agg of [] \<Rightarrow> 0 | row # rest \<Rightarrow> snd row)"

text \<open>
  The fields of the overview payload that the time series and the totals make up. The
  breakdowns, top lists, recent clicks and annotations of the payload are further
  queries whose results these fields do not read; they are not part of the model, and
  the parameter \<open>breakdown\<close>, which only they use, is carried along.
\<close>

record overview =
  byDay :: "(jsstr \<times> nat) list"
  totals_clicks :: nat
  totals_links :: nat
  byDayPrev :: "(jsstr \<times> nat) list"
  totalsPrev_clicks :: nat

definition buildOverviewPayload ::
  "libs \<Rightarrow> date \<Rightarrow> objid \<Rightarrow> jsstr option \<Rightarrow> bool \<Rightarrow> jsnum \<Rightarrow> click_filters \<Rightarrow> jsstr
     \<Rightarrow> db \<Rightarrow> overview" where
  "buildOverviewPayload L now owner r0 compare tzMin filters breakdown d =
     (let r = parseRange L r0;
          since = now - window r;
          sincePrev = since - window r;
          fmt = dateFormatForRange r;
          own = filter (\<lambda>l. link_ownerId l = owner) (links d);
          linkIds = map link_id own
      in if linkIds = []
           then \<lparr> byDay = [], totals_clicks = 0, totals_links = 0, byDayPrev = [],
                  totalsPrev_clicks = 0 \<rparr>
         else
           (let now_clicks = filter (matchNow linkIds since filters) (clicks d);
                prev_clicks = (if compare
                                 then filter (matchPrev linkIds sincePrev since filters) (clicks d)
                               else filter (\<lambda>c. False) (clicks d))
            in \<lparr> byDay = byDay_aggregate L tzMin fmt now_clicks,
                 totals_clicks = first_clicks (totals_aggregate now_clicks),
                 totals_links = length own,
                 byDayPrev = byDay_aggregate L tzMin fmt prev_clicks,
                 totalsPrev_clicks = first_clicks (totals_aggregate prev_clicks) \<rparr>))"

text \<open>\<open>GET /api/analytics/overview\<close> for the authenticated user.\<close>

record overview_query =
  oq_range :: "jsstr option"
  oq_tz :: "jsstr option"
  oq_compare :: "jsstr option"
  oq_breakdown :: "jsstr option"
  oq_filters :: click_filters

definition overview_get :: "libs \<Rightarrow> date \<Rightarrow> objid \<Rightarrow> overview_query \<Rightarrow> db \<Rightarrow> overview" where
  "overview_get L now user q d =
     (let r0 = orElse (oq_range q) (js ''7d'');
          tzMin = (case parseInt10 L (orElse (oq_tz q) (js ''0'')) of
                     None \<Rightarrow> Num 0 | Some n \<Rightarrow> n);
          compare = (orElse (oq_compare q) (js ''0'') = js ''1'');
          breakdown = orElse (oq_breakdown q) (js ''none'');
          filters = commonFiltersFromQuery L (oq_filters q)
      in buildOverviewPayload L now user (Some r0) compare tzMin filters breakdown d)"

section \<open>routes/analytics.routes.js: saved views and annotations\<close>

text \<open>The models \<open>SavedView\<close> and \<open>Annotation\<close>, both with \<open>timestamps: true\<close>.\<close>

record saved_view =
  view_id :: objid
  view_ownerId :: objid
  view_name :: jsstr
  view_range :: jsstr
  view_compare :: bool
  view_filters :: click_filters
  view_breakdown :: jsstr
  view_createdAt :: date
  view_updatedAt :: date

record annotation =
  ann_id :: objid
  ann_ownerId :: objid
  ann_scope :: jsstr
  ann_ts :: date
  ann_label :: jsstr
  ann_color :: jsstr
  ann_createdAt :: date
  ann_updatedAt :: date

record astore =
  views :: "saved_view list"
  annotations :: "annotation list"

text \<open>What the two listings send for a document.\<close>

record view_json =
  vj_id :: jsstr
  vj_name :: jsstr
  vj_range :: jsstr
  vj_compare :: bool
  vj_filters :: click_filters
  vj_breakdown :: jsstr
  vj_updatedAt :: date

record ann_json =
  aj_id :: jsstr
  aj_ts :: date
  aj_label :: jsstr
  aj_color :: jsstr

text \<open>The request bodies; a field is absent or of the type the schema gives it.\<close>

record view_body =
  vb_name :: "jsstr option"
  vb_range :: "jsstr option"
  vb_compare :: "bool option"
  vb_filters :: "click_filters option"
  vb_breakdown :: "jsstr option"

record ann_body =
  ab_ts :: "jsstr option"
  ab_label :: "jsstr option"
  ab_color :: "jsstr option"

text \<open>
  A reply of these routes. \<open>AThrown\<close> stands for a handler that throws (a document that
  fails the schema's validation, an id that is no ObjectId) and so sends nothing itself.
\<close>

datatype areply =
    AMessage nat jsstr
  | AOkId jsstr
  | AOk
  | AViews "view_json list"
  | AAnnotations "ann_json list"
  | AThrown

definition DEFAULT_ANNOTATION_COLOR :: jsstr where
  "DEFAULT_ANNOTATION_COLOR = js ''#ef4444''"

definition view_to_json :: "saved_view \<Rightarrow> view_json" where
  "view_to_json v =
     \<lparr> vj_id = view_id v, vj_name = view_name v, vj_range = view_range v,
       vj_compare = view_compare v, vj_filters = view_filters v,
       vj_breakdown = orElse (Some (view_breakdown v)) (js ''none''),
       vj_updatedAt = view_updatedAt v \<rparr>"

definition ann_to_json :: "annotation \<Rightarrow> ann_json" where
  "ann_to_json a =
     \<lparr> aj_id = ann_id a, aj_ts = ann_ts a, aj_label = ann_label a, aj_color = ann_color a \<rparr>"

text \<open>\<open>GET /analytics/views\<close>: the user's views, latest update first.\<close>

definition get_views :: "objid \<Rightarrow> astore \<Rightarrow> areply" where
  "get_views user s =
     AViews (map view_to_json
       (sort_key (\<lambda>v. - view_updatedAt v) (filter (\<lambda>v. view_ownerId v = user) (views s))))"

definition empty_filters :: click_filters where
  "empty_filters =
     \<lparr> cf_source = None, cf_medium = None, cf_campaign = None, cf_country = None,
       cf_device = None, cf_browser = None \<rparr>"

text \<open>
  \<open>POST /analytics/views\<close> at time \<open>now\<close> with the generated id \<open>newId\<close>. The schema
  accepts the ranges 24h, 7d, 30d and the breakdowns none, device, browser, country.
\<close>

definition post_view :: "objid \<Rightarrow> date \<Rightarrow> objid \<Rightarrow> view_body \<Rightarrow> astore \<Rightarrow> areply \<times> astore" where
  "post_view user now newId b s =
     (if \<not> truthy (vb_name b) \<or> trim (orElse (vb_name b) []) = []
        then (AMessage 400 (js ''Name required''), s)
      else
        (let r = (case vb_range b of None \<Rightarrow> js ''7d'' | Some x \<Rightarrow> x);
             bd = (case vb_breakdown b of None \<Rightarrow> js ''none'' | Some x \<Rightarrow> x);
             v = \<lparr> view_id = newId, view_ownerId = user,
                   view_name = trim (orElse (vb_name b) []),
                   view_range = r,
                   view_compare = (case vb_compare b of None \<Rightarrow> False | Some c \<Rightarrow> c),
                   view_filters = (case vb_filters b of None \<Rightarrow> empty_filters | Some f \<Rightarrow> f),
                   view_breakdown = bd,
                   view_createdAt = now, view_updatedAt = now \<rparr>
         in if r \<in> set [js ''24h'', js ''7d'', js ''30d''] \<and>
               bd \<in> set [js ''none'', js ''device'', js ''browser'', js ''country'']
              then (AOkId newId, s\<lparr>views := views s @ [v]\<rparr>)
            else (AThrown, s)))"

text \<open>
  \<open>DELETE /analytics/views/:id\<close>: \<open>deleteOne\<close> casts the parameter to an ObjectId and
  throws when it is none.
\<close>

definition delete_view :: "libs \<Rightarrow> objid \<Rightarrow> jsstr \<Rightarrow> astore \<Rightarrow> areply \<times> astore" where
  "delete_view L user params_id s =
     (case castObjectId L params_id of
        None \<Rightarrow> (AThrown, s)
      | Some i \<Rightarrow>
          (AOk, s\<lparr>views := deleteOne (\<lambda>v. view_id v = i \<and> view_ownerId v = user) (views s)\<rparr>))"

text \<open>\<open>GET /analytics/annotations\<close> at time \<open>now\<close>: the user's markers in the range, oldest first.\<close>

definition get_annotations :: "libs \<Rightarrow> date \<Rightarrow> objid \<Rightarrow> jsstr option \<Rightarrow> astore \<Rightarrow> areply" where
  "get_annotations L now user r0 s =
     (let since = now - window (parseRange L r0) in
      AAnnotations (map ann_to_json
        (sort_key ann_ts
           (filter (\<lambda>a. ann_ownerId a = user \<and> ann_ts a \<ge> since) (annotations s)))))"

text \<open>\<open>POST /analytics/annotations\<close>; an invalid date fails the schema's \<open>ts\<close>.\<close>

definition post_annotation ::
  "libs \<Rightarrow> objid \<Rightarrow> date \<Rightarrow> objid \<Rightarrow> ann_body \<Rightarrow> astore \<Rightarrow> areply \<times> astore" where
  "post_annotation L user now newId b s =
     (if \<not> truthy (ab_ts b) \<or> \<not> truthy (ab_label b)
        then (AMessage 400 (js ''ts and label required''), s)
      else
        (case Date_parse L (orElse (ab_ts b) []) of
           None \<Rightarrow> (AThrown, s)
         | Some t \<Rightarrow>
             (AOkId newId,
              s\<lparr>annotations := annotations s @
                  [\<lparr> ann_id = newId, ann_ownerId = user, ann_scope = js ''overview'',
                     ann_ts = t, ann_label = orElse (ab_label b) [],
                     ann_color = orElse (ab_color b) DEFAULT_ANNOTATION_COLOR,
                     ann_createdAt = now, ann_updatedAt = now \<rparr>]\<rparr>)))"

text \<open>\<open>DELETE /analytics/annotations/:id\<close>, with the same cast.\<close>

definition delete_annotation :: "libs \<Rightarrow> objid \<Rightarrow> jsstr \<Rightarrow> astore \<Rightarrow> areply \<times> astore" where
  "delete_annotation L user params_id s =
     (case castObjectId L params_id of
        None \<Rightarrow> (AThrown, s)
      | Some i \<Rightarrow>
          (AOk, s\<lparr>annotations :=
             deleteOne (\<lambda>a. ann_id a = i \<and> ann_ownerId a = user) (annotations s)\<rparr>))"

text \<open>
  The saved-view and annotation requests of one authenticated user, each with the time
  and the generated id it runs with, and a run of a sequence of them.
\<close>

datatype view_op =
    ListViews
  | CreateView date objid view_body
  | DeleteView jsstr
  | ListAnnotations date "jsstr option"
  | CreateAnnotation date objid ann_body
  | DeleteAnnotation jsstr

fun step :: "libs \<Rightarrow> objid \<Rightarrow> view_op \<Rightarrow> astore \<Rightarrow> areply \<times> astore" where
  "step L user ListViews s = (get_views user s, s)"
| "step L user (CreateView now newId b) s = post_view user now newId b s"
| "step L user (DeleteView i) s = delete_view L user i s"
| "step L user (ListAnnotations now r0) s = (get_annotations L now user r0 s, s)"
| "step L user (CreateAnnotation now newId b) s = post_annotation L user now newId b s"
| "step L user (DeleteAnnotation i) s = delete_annotation L user i s"

fun run :: "libs \<Rightarrow> objid \<Rightarrow> view_op list \<Rightarrow> astore \<Rightarrow> areply list \<times> astore" where
  "run L user [] s = ([], s)"
| "run L user (x # xs) s =
     (let (r, s1) = step L user x s;
          (rs, s2) = run L user xs s1
      in (r # rs, s2))"

text \<open>The documents a query with \<open>ownerId: user\<close> ranges over.\<close>

definition own_views :: "objid \<Rightarrow> astore \<Rightarrow> saved_view list" where
  "own_views u s = filter (\<lambda>v. view_ownerId v = u) (views s)"

definition own_annotations :: "objid \<Rightarrow> astore \<Rightarrow> annotation list" where
  "own_annotations u s = filter (\<lambda>a. ann_ownerId a = u) (annotations s)"

section \<open>Example data\<close>

text \<open>A small environment, link and request on which the theorems below are exercised.\<close>

text \<open>
  An ObjectId cast for the examples: 24 hexadecimal digits, read without regard to case.
\<close>

definition hex_digit :: "nat \<Rightarrow> bool" where
  "hex_digit c = ((48 \<le> c \<and> c \<le> 57) \<or> (97 \<le> c \<and> c \<le> 102) \<or> (65 \<le> c \<and> c \<le> 70))"

definition example_cast :: "jsstr \<Rightarrow> objid option" where
  "example_cast s =
     (if length s = 24 \<and> list_all hex_digit s
        then Some (map (\<lambda>c. if 65 \<le> c \<and> c \<le> 70 then c + 32 else c) s)
      else None)"

text \<open>
  A \<open>parseInt\<close> for the examples: it reads "0", takes four hundred decimal digits or more
  for \<open>Infinity\<close>, and gives \<open>NaN\<close> otherwise.
\<close>

definition example_parseInt :: "jsstr \<Rightarrow> jsnum option" where
  "example_parseInt s =
     (if s = js ''0'' then Some (Num 0)
      else if 400 \<le> length s \<and> list_all (\<lambda>c. 48 \<le> c \<and> c \<le> 57) s then Some PosInfinity
      else None)"

definition example_libs :: libs where
  "example_libs =
     \<lparr> bcrypt_compareSync = (\<lambda>pwd h. h = js ''bcrypt:'' @ pwd),
       bcrypt_hashSync = (\<lambda>pwd. js ''bcrypt:'' @ pwd),
       sha256_hex = (\<lambda>s. js ''0123456789abcdef0123456789abcdef0123456789abcdef0123456789abcdef''),
       toISOString = (\<lambda>t. js ''2024-01-01T00:00:00.000Z''),
       jwt_secret = js ''secret'',
       UAParser = (\<lambda>s. (None, None)),
       parseInt10 = example_parseInt,
       toUpperCase = map canonicalize,
       toLowerCase = (\<lambda>s. s),
       fetchPageMeta = (\<lambda>u. (None, None)),
       BASE_PUBLIC_URL = js ''https://sho.rt'',
       mongo_dateToString = (\<lambda>fmt t. if t < 86400000 then js ''1970-01-01'' else js ''1970-01-02''),
       mongo_add_infinite = (\<lambda>t x. t),
       Date_parse = (\<lambda>s. if s = js ''1970-01-01T00:00:05.000Z'' then Some 5000 else None),
       castObjectId = example_cast \<rparr>"

definition example_link :: link where
  "example_link =
     \<lparr> link_id = js ''65a1b2c3d4e5f60718293a4b'', link_ownerId = js ''65a1b2c3d4e5f60718293a00'',
       code = js ''abc1234'', longUrl = js ''https://example.com/page'', domain = [],
       isActive = True, expiresAt = None, passwordHash = None, maxClicks = 0,
       clicksCount = 0,
       link_meta = \<lparr> title = None, favicon = None, meta_notes = None \<rparr>,
       createdAt = 1000, updatedAt = 1000 \<rparr>"

definition example_request :: request where
  "example_request =
     \<lparr> params_code = Some (js ''abc1234''), signedCookies = (\<lambda>k. None), query_pw = None,
       query_ok = None, query_tzOffset = None, query_utm_source = None,
       query_utm_medium = None, query_utm_campaign = None, header_referer = None,
       header_x_forwarded_for = Some (js ''203.0.113.7, 10.0.0.1''),
       socket_remoteAddress = None, header_user_agent = None, header_cf_ipcountry = None,
       header_x_vercel_ip_country = None, header_x_geo_country = None \<rparr>"


definition long_tz_request :: request where
  "long_tz_request = example_request\<lparr>query_tzOffset := Some (replicate 400 57)\<rparr>"

definition locked_link :: link where
  "locked_link = example_link\<lparr>passwordHash := Some (js ''bcrypt:hunter2'')\<rparr>"

definition example_payload :: payload where
  "example_payload = click_payload example_libs 5000 example_link example_request"

definition other_link :: link where
  "other_link = example_link\<lparr> link_id := js ''65a1b2c3d4e5f60718293a4d'', code := js ''other42'' \<rparr>"

definition example_gen :: "nat \<Rightarrow> jsstr" where
  "example_gen n = (if n = 0 then js ''abc1234'' else js ''Zz9Yy8X'')"

definition example_create :: create_value where
  "example_create =
     \<lparr> cv_longUrl = js ''https://example.org/'', cv_code = None, cv_notes = None,
       cv_expiresAt = None, cv_password = None, cv_maxClicks = 0, cv_domain = None \<rparr>"

definition example_update :: update_value where
  "example_update =
     \<lparr> uv_longUrl = None, uv_notes = None, uv_isActive = None, uv_expiresAt = None,
       uv_password = None, uv_maxClicks = None, uv_domain = None,
       uv_code = Some (js ''abc1234'') \<rparr>"

definition alice :: objid where "alice = js ''65a1b2c3d4e5f60718293a00''"

definition bob :: objid where "bob = js ''65a1b2c3d4e5f60718293b00''"

definition bobs_view :: saved_view where
  "bobs_view =
     \<lparr> view_id = js ''65a1b2c3d4e5f60718293b01'', view_ownerId = bob,
       view_name = js ''Bob weekly'', view_range = js ''7d'', view_compare = False,
       view_filters = empty_filters, view_breakdown = js ''none'',
       view_createdAt = 100, view_updatedAt = 100 \<rparr>"

definition bobs_marker :: annotation where
  "bobs_marker =
     \<lparr> ann_id = js ''65a1b2c3d4e5f60718293b02'', ann_ownerId = bob, ann_scope = js ''overview'',
       ann_ts = 4000, ann_label = js ''launch'', ann_color = js ''#ef4444'',
       ann_createdAt = 200, ann_updatedAt = 200 \<rparr>"

definition example_astore :: astore where
  "example_astore = \<lparr> views = [bobs_view], annotations = [bobs_marker] \<rparr>"

definition alices_ops :: "view_op list" where
  "alices_ops =
     [ ListViews,
       DeleteView (js ''65a1b2c3d4e5f60718293b01''),
       DeleteView (js ''65A1B2C3D4E5F60718293B01''),
       DeleteView (js ''bobs-view''),
       DeleteAnnotation (js ''65a1b2c3d4e5f60718293b02''),
       CreateView 5000 (js ''65a1b2c3d4e5f60718293a01'')
         \<lparr> vb_name = Some (js ''Mine''), vb_range = None, vb_compare = None,
           vb_filters = None, vb_breakdown = None \<rparr>,
       ListViews,
       ListAnnotations 5000 None ]"

definition example_user :: user where
  "example_user =
     \<lparr> user_id = alice, user_name = js ''Ann'', email = js ''ann@example.com'',
       user_passwordHash = js ''bcrypt:secret1'', emailVerified = True, verifyCode = None,
       verifyCodeExpires = None, resetCode = None, resetCodeExpires = None,
       role = js ''user'', user_createdAt = 10, user_updatedAt = 10 \<rparr>"

definition example_clicks :: "click list" where
  "example_clicks =
     [ Click_create 4000 (js ''65a1b2c3d4e5f60718293c01'') example_payload,
       Click_create 90000000 (js ''65a1b2c3d4e5f60718293c02'') example_payload ]"

section \<open>Evaluation and helper lemmas\<close>

lemmas js_eval = js_def trim_def isWhiteSpace_def rx_test_def lit_def unit_eq_def
  canonicalize_def

lemma trim_code: "trim (js ''abc1234'') = js ''abc1234''"
  by (simp add: js_eval)

lemma updateOne_distinct:
  "distinct (map k xs) \<Longrightarrow>
     updateOne (\<lambda>x. k x = i) f xs = map (\<lambda>x. if k x = i then f x else x) xs"
proof (induction xs)
  case Nil
  then show ?case by simp
next
  case (Cons x xs)
  have "\<forall>y\<in>set xs. k y \<noteq> k x"
    using Cons.prems by (auto simp: image_iff)
  then have "k x = i \<Longrightarrow> map (\<lambda>y. if k y = i then f y else y) xs = xs"
    by (intro map_idI) simp
  with Cons show ?case by simp
qed

lemma trim_keeps_head:
  assumes "\<not> isWhiteSpace c"
  shows "\<exists>t. trim (c # s) = c # t"
proof -
  have "dropWhile isWhiteSpace (rev s @ [c]) = dropWhile isWhiteSpace (rev s) @ [c]"
    using assms by (simp add: dropWhile_append)
  then show ?thesis using assms by (simp add: trim_def)
qed

lemma unsafe_slash: "\<not> isSafeUrl (47 # s)"
proof -
  have "\<not> isWhiteSpace 47" by (simp add: isWhiteSpace_def)
  then obtain t where "trim (47 # s) = 47 # t" using trim_keeps_head by blast
  then show ?thesis
    by (simp add: isSafeUrl_def http_s_def js_eval)
qed

lemma unlock_url_unsafe: "\<not> isSafeUrl (unlock_url c)"
  using unsafe_slash by (simp add: unlock_url_def js_def)

lemma cookieKey_objectid:
  "list_all key_char i \<Longrightarrow> cookieKey i = js ''sl_pw_ok_'' @ i"
  by (simp add: cookieKey_def js_def key_char_def list_all_iff filter_id_conv)

lemma hashed_ip_only:
  assumes "ip_hash L now (client_ip rq') = ip_hash L now (client_ip rq)"
    and "rq' = rq\<lparr>header_x_forwarded_for := x, socket_remoteAddress := y\<rparr>"
  shows "click_payload L now l rq' = click_payload L now l rq"
  using assms by (simp add: click_payload_def Let_def)

lemma findOne_None_iff: "findOne P xs = None \<longleftrightarrow> (\<forall>x\<in>set xs. \<not> P x)"
  by (auto simp: findOne_def find_None_iff)

lemma findOne_Some_mem: "findOne P xs = Some x \<Longrightarrow> x \<in> set xs \<and> P x"
  by (auto simp: findOne_def find_Some_iff)

lemma fresh_code_fresh:
  assumes "fresh_code gen ls n = Some c"
  shows "findOne (\<lambda>l. code l = c) ls = None"
proof (rule fresh_code.raw_induct
    [where P = "\<lambda>gen ls n c. findOne (\<lambda>l. code l = c) ls = None", OF _ assms])
  fix f gen' ls' n' c'
  assume IH: "\<And>g ls n y. f g ls n = Some y \<Longrightarrow> findOne (\<lambda>l. code l = y) ls = None"
    and eq: "(if findOne (\<lambda>l. code l = gen' n') ls' \<noteq> None then f gen' ls' (Suc n')
              else Some (gen' n')) = Some c'"
  show "findOne (\<lambda>l. code l = c') ls' = None"
  proof (cases "findOne (\<lambda>l. code l = gen' n') ls' = None")
    case True
    then show ?thesis using eq by simp
  next
    case False
    then show ?thesis using eq IH by simp
  qed
qed

lemma fresh_code_finds:
  assumes "findOne (\<lambda>l. code l = gen (n + k)) ls = None"
    and "\<forall>j<k. findOne (\<lambda>l. code l = gen (n + j)) ls \<noteq> None"
  shows "fresh_code gen ls n = Some (gen (n + k))"
  using assms
proof (induction k arbitrary: n)
  case 0
  then show ?case by (subst fresh_code.simps) simp
next
  case (Suc k)
  have taken: "findOne (\<lambda>l. code l = gen n) ls \<noteq> None"
    using Suc.prems(2) by force
  have "fresh_code gen ls (Suc n) = Some (gen (Suc n + k))"
  proof (rule Suc.IH)
    show "findOne (\<lambda>l. code l = gen (Suc n + k)) ls = None"
      using Suc.prems(1) by simp
    show "\<forall>j<k. findOne (\<lambda>l. code l = gen (Suc n + j)) ls \<noteq> None"
      using Suc.prems(2) by (metis Suc_less_eq add_Suc_shift)
  qed
  then show ?case using taken by (subst fresh_code.simps) simp
qed

lemma fresh_code_returns:
  assumes "\<exists>n. gen n \<notin> code ` set ls"
  shows "fresh_code gen ls 0 = Some (gen (LEAST n. gen n \<notin> code ` set ls))"
proof -
  let ?k = "LEAST n. gen n \<notin> code ` set ls"
  have a: "gen ?k \<notin> code ` set ls"
    using assms by (rule LeastI_ex)
  have b: "\<forall>j<?k. gen j \<in> code ` set ls"
    using not_less_Least by blast
  have "fresh_code gen ls 0 = Some (gen (0 + ?k))"
  proof (rule fresh_code_finds)
    show "findOne (\<lambda>l. code l = gen (0 + ?k)) ls = None"
      using a by (auto simp: findOne_None_iff image_iff)
    show "\<forall>j<?k. findOne (\<lambda>l. code l = gen (0 + j)) ls \<noteq> None"
    proof (intro allI impI)
      fix j assume "j < ?k"
      then have "gen j \<in> code ` set ls" using b by blast
      then obtain x where "x \<in> set ls" "code x = gen j" by auto
      then have "\<not> (\<forall>x\<in>set ls. \<not> code x = gen j)" by blast
      then show "findOne (\<lambda>l. code l = gen (0 + j)) ls \<noteq> None"
        unfolding findOne_None_iff by simp
    qed
  qed
  then show ?thesis by simp
qed

lemma updateOne_set:
  "set (updateOne P f xs) \<subseteq> set xs \<union> f ` {x \<in> set xs. P x}"
  by (induction xs) auto

lemma updateOne_distinct_key:
  assumes "distinct (map k xs)"
    and "\<forall>x\<in>set xs. P x \<longrightarrow> k (f x) = k x \<or> k (f x) \<notin> k ` set xs"
  shows "distinct (map k (updateOne P f xs))"
  using assms
proof (induction xs)
  case Nil
  then show ?case by simp
next
  case (Cons x xs)
  show ?case
  proof (cases "P x")
    case True
    then have "k (f x) = k x \<or> k (f x) \<notin> k ` set (x # xs)"
      using Cons.prems(2) by simp
    then have "k (f x) \<notin> k ` set xs"
      using Cons.prems(1) by auto
    then show ?thesis using True Cons.prems(1) by simp
  next
    case False
    have step: "\<forall>y\<in>set xs. P y \<longrightarrow> k (f y) = k y \<or> k (f y) \<notin> k ` set xs"
      using Cons.prems(2) by auto
    have d: "distinct (map k (updateOne P f xs))"
      using Cons.IH Cons.prems(1) step by simp
    have "k x \<notin> k ` set (updateOne P f xs)"
    proof
      assume "k x \<in> k ` set (updateOne P f xs)"
      then obtain y where y: "y \<in> set (updateOne P f xs)" "k y = k x" by auto
      then consider "y \<in> set xs" | z where "z \<in> set xs" "P z" "y = f z"
        using updateOne_set[of P f xs] by auto
      then show False
      proof cases
        case 1
        then show ?thesis using y(2) Cons.prems(1) by (auto simp: image_iff)
      next
        case 2
        then have "k (f z) = k z \<or> k (f z) \<notin> k ` set (x # xs)"
          using Cons.prems(2) by simp
        then show ?thesis
          using 2 y(2) Cons.prems(1) by (auto simp: image_iff)
      qed
    qed
    then show ?thesis using False d by simp
  qed
qed

lemma code_new_link: "code (new_link L now newId user c v) = c"
  by (simp add: new_link_def Let_def)

lemma code_apply_set:
  "code (apply_set L now v l) = (case uv_code v of None \<Rightarrow> code l | Some c \<Rightarrow> c)"
  by (simp add: apply_set_def Let_def)

lemma choose_code_fresh:
  assumes "choose_code gen c ls = Some (Inr c')"
  shows "c' \<notin> code ` set ls"
proof -
  have "findOne (\<lambda>l. code l = c') ls = None"
  proof (cases "c = []")
    case True
    then have "fresh_code gen ls 0 = Some c'"
      using assms by (auto simp: choose_code_def)
    then show ?thesis by (rule fresh_code_fresh)
  next
    case False
    then show ?thesis
      using assms by (auto simp: choose_code_def split: if_splits)
  qed
  then show ?thesis by (auto simp: findOne_None_iff)
qed

lemma post_link_distinct:
  assumes "distinct (map code ls)"
    and "post_link L gen now newId user validated ls = Some (r, ls')"
  shows "distinct (map code ls')"
proof (cases validated)
  case (Inl msg)
  then show ?thesis using assms by (simp add: post_link_def)
next
  case (Inr v)
  show ?thesis
  proof (cases "isSafeUrl (cv_longUrl v)")
    case False
    then show ?thesis using assms Inr by (simp add: post_link_def)
  next
    case True
    show ?thesis
    proof (cases "choose_code gen (trim (orElse (cv_code v) [])) ls")
      case None
      then show ?thesis using assms Inr True by (simp add: post_link_def)
    next
      case (Some a)
      show ?thesis
      proof (cases a)
        case (Inl rep)
        then show ?thesis using assms Inr True Some by (simp add: post_link_def)
      next
        case (Inr c)
        then have "c \<notin> code ` set ls"
          using Some choose_code_fresh by blast
        moreover have "ls' = ls @ [new_link L now newId user c v]"
          using assms(2) \<open>validated = Inr v\<close> True Some Inr
          by (simp add: post_link_def Let_def)
        ultimately show ?thesis using assms(1) by (simp add: code_new_link)
      qed
    qed
  qed
qed

lemma post_link_auto:
  assumes "isSafeUrl (cv_longUrl v)" and "trim (orElse (cv_code v) []) = []"
    and "\<exists>n. gen n \<notin> code ` set ls"
  shows "\<exists>doc. post_link L gen now newId user (Inr v) ls
            = Some (LinkJson doc (buildShortUrl L doc), ls @ [doc]) \<and>
          code doc = gen (LEAST n. gen n \<notin> code ` set ls) \<and> code doc \<notin> code ` set ls"
proof -
  let ?c = "gen (LEAST n. gen n \<notin> code ` set ls)"
  have "fresh_code gen ls 0 = Some ?c"
    using assms(3) by (rule fresh_code_returns)
  then have "choose_code gen (trim (orElse (cv_code v) [])) ls = Some (Inr ?c)"
    using assms(2) by (simp add: choose_code_def)
  then have "post_link L gen now newId user (Inr v) ls
      = Some (LinkJson (new_link L now newId user ?c v)
               (buildShortUrl L (new_link L now newId user ?c v)),
              ls @ [new_link L now newId user ?c v])"
    using assms(1) by (simp add: post_link_def Let_def)
  moreover have "?c \<notin> code ` set ls"
    using assms(3) by (rule LeastI_ex)
  ultimately show ?thesis by (simp add: code_new_link)
qed

lemma post_link_taken:
  assumes "isSafeUrl (cv_longUrl v)" and "trim (orElse (cv_code v) []) \<noteq> []"
    and "trim (orElse (cv_code v) []) \<in> code ` set ls"
  shows "post_link L gen now newId user (Inr v) ls
           = Some (Message 409 (js ''Code already taken''), ls)"
proof -
  have "findOne (\<lambda>l. code l = trim (orElse (cv_code v) [])) ls \<noteq> None"
    using assms(3) by (auto simp: findOne_None_iff)
  then show ?thesis
    using assms(1,2) by (simp add: post_link_def choose_code_def)
qed

lemma findOne_distinct_key:
  assumes "distinct (map k xs)" and "e \<in> set xs"
  shows "findOne (\<lambda>x. k x = k e) xs = Some e"
  using assms
proof (induction xs)
  case Nil
  then show ?case by simp
next
  case (Cons x xs)
  then show ?case by (auto simp: findOne_def image_iff)
qed

lemma patch_link_taken:
  assumes "distinct (map code ls)"
    and "\<not> (truthy (uv_longUrl v) \<and> \<not> isSafeUrl (orElse (uv_longUrl v) []))"
    and "uv_code v = Some c" and "c \<noteq> []"
    and "e \<in> set ls" and "code e = c" and "link_id e \<noteq> params_id"
  shows "patch_link L now user params_id (Inr v) ls
           = (Message 409 (js ''Code already taken''), ls)"
proof -
  have "findOne (\<lambda>l. code l = c) ls = Some e"
    using findOne_distinct_key[OF assms(1,5)] assms(6) by simp
  then show ?thesis
    using assms(2,3,4,7) by (simp add: patch_link_def truthy_def orElse_def)
qed

lemma slug_nonempty: "slug c \<Longrightarrow> c \<noteq> []"
  by (auto simp: slug_def)

lemma patch_link_distinct:
  assumes codes: "distinct (map code ls)" and ids: "distinct (map link_id ls)"
    and canon: "\<forall>l\<in>set ls. castObjectId L (link_id l) = Some (link_id l)"
    and ok: "\<forall>v c. validated = Inr v \<and> uv_code v = Some c \<longrightarrow> slug c"
  shows "distinct (map code (snd (patch_link L now user params_id validated ls)))"
proof (cases validated)
  case (Inl msg)
  then show ?thesis using codes by (simp add: patch_link_def)
next
  case (Inr v)
  have key: "\<forall>x\<in>set ls. link_id x = i \<and> link_ownerId x = user \<longrightarrow>
      code (apply_set L now v x) = code x \<or> code (apply_set L now v x) \<notin> code ` set ls"
    if pass: "\<not> (truthy (uv_code v) \<and>
                (case findOne (\<lambda>l. code l = orElse (uv_code v) []) ls of
                   None \<Rightarrow> False | Some e \<Rightarrow> link_id e \<noteq> params_id))"
      and cast: "castObjectId L params_id = Some i" for i
  proof (intro ballI impI)
    fix x assume x: "x \<in> set ls" "link_id x = i \<and> link_ownerId x = user"
    show "code (apply_set L now v x) = code x \<or> code (apply_set L now v x) \<notin> code ` set ls"
    proof (cases "uv_code v")
      case None
      then show ?thesis by (simp add: code_apply_set)
    next
      case (Some c)
      then have c: "c \<noteq> []" using ok Inr slug_nonempty by blast
      show ?thesis
      proof (cases "findOne (\<lambda>l. code l = c) ls")
        case None
        then have "c \<notin> code ` set ls" by (auto simp: findOne_None_iff)
        then show ?thesis using Some by (simp add: code_apply_set)
      next
        case (Some e)
        then have e: "e \<in> set ls" "code e = c"
          using findOne_Some_mem by force+
        have "link_id e = params_id"
          using pass \<open>uv_code v = Some c\<close> c Some by (simp add: truthy_def orElse_def)
        then have "castObjectId L params_id = Some (link_id e)"
          using canon e(1) by auto
        then have "link_id e = link_id x" using cast x by simp
        then have "e = x"
          using ids e(1) x(1) by (simp add: distinct_map inj_on_def)
        then show ?thesis using e(2) \<open>uv_code v = Some c\<close> by (simp add: code_apply_set)
      qed
    qed
  qed
  show ?thesis
  proof (cases "truthy (uv_longUrl v) \<and> \<not> isSafeUrl (orElse (uv_longUrl v) [])")
    case True
    then show ?thesis using Inr codes by (simp add: patch_link_def)
  next
    case safe: False
    show ?thesis
    proof (cases "truthy (uv_code v) \<and>
                (case findOne (\<lambda>l. code l = orElse (uv_code v) []) ls of
                   None \<Rightarrow> False | Some e \<Rightarrow> link_id e \<noteq> params_id)")
      case True
      then show ?thesis using Inr codes safe by (simp add: patch_link_def)
    next
      case free: False
      show ?thesis
      proof (cases "castObjectId L params_id")
        case None
        then show ?thesis using Inr codes safe free by (simp add: patch_link_def)
      next
        case (Some i)
        show ?thesis
        proof (cases "findOne (\<lambda>l. link_id l = i \<and> link_ownerId l = user) ls")
          case None
          then show ?thesis
            using Inr codes safe free \<open>castObjectId L params_id = Some i\<close>
            by (simp add: patch_link_def)
        next
          case (Some l)
          then have "snd (patch_link L now user params_id validated ls)
              = updateOne (\<lambda>l. link_id l = i \<and> link_ownerId l = user) (apply_set L now v) ls"
            using Inr safe free \<open>castObjectId L params_id = Some i\<close>
            by (auto simp add: patch_link_def Let_def)
          then show ?thesis
            using updateOne_distinct_key
              [OF codes key [OF free \<open>castObjectId L params_id = Some i\<close>]]
            by simp
        qed
      qed
    qed
  qed
qed

lemma example_cast_canonical:
  "castObjectId example_libs (js ''65a1b2c3d4e5f60718293a4b'') = Some (js ''65a1b2c3d4e5f60718293a4b'')"
  "castObjectId example_libs (js ''65a1b2c3d4e5f60718293a4d'') = Some (js ''65a1b2c3d4e5f60718293a4d'')"
  "castObjectId example_libs (js ''65a1b2c3d4e5f60718293b01'') = Some (js ''65a1b2c3d4e5f60718293b01'')"
  "castObjectId example_libs (js ''65a1b2c3d4e5f60718293b02'') = Some (js ''65a1b2c3d4e5f60718293b02'')"
  "castObjectId example_libs (js ''65a1b2c3d4e5f60718293a01'') = Some (js ''65a1b2c3d4e5f60718293a01'')"
  by (simp_all add: example_libs_def example_cast_def hex_digit_def js_def)

lemma example_cast_upper:
  "castObjectId example_libs (js ''65A1B2C3D4E5F60718293B01'') = Some (js ''65a1b2c3d4e5f60718293b01'')"
  "castObjectId example_libs (js ''65A1B2C3D4E5F60718293A01'') = Some (js ''65a1b2c3d4e5f60718293a01'')"
  "castObjectId example_libs (js ''65A1B2C3D4E5F60718293A4B'') = Some (js ''65a1b2c3d4e5f60718293a4b'')"
  by (simp_all add: example_libs_def example_cast_def hex_digit_def js_def)

lemma example_cast_none: "castObjectId example_libs (js ''bobs-view'') = None"
  by (simp add: example_libs_def example_cast_def hex_digit_def js_def)

lemma example_canonical:
  "\<forall>l\<in>set [example_link, other_link]. castObjectId example_libs (link_id l) = Some (link_id l)"
  by (simp add: example_link_def other_link_def example_cast_canonical)

lemma example_parseInt_long: "example_parseInt (replicate 400 57) = Some PosInfinity"
proof -
  have "replicate 400 (57::nat) \<noteq> [48]"
  proof
    assume "replicate 400 (57::nat) = [48]"
    then have "length (replicate 400 (57::nat)) = length [48::nat]" by (rule arg_cong)
    then show False by simp
  qed
  then show ?thesis by (simp add: example_parseInt_def js_def list_all_iff)
qed

lemma json_copy_finite:
  assumes "p_tzOffset p \<noteq> Some PosInfinity" and "p_tzOffset p \<noteq> Some NegInfinity"
  shows "json_copy p = p"
proof (cases "p_tzOffset p")
  case None
  then show ?thesis by (simp add: json_copy_def)
next
  case (Some x)
  then show ?thesis using assms by (cases x) (simp_all add: json_copy_def json_number_def)
qed

lemma click_payload_tzOffset:
  "p_tzOffset (click_payload L now l rq)
     = Some (case parseInt10 L (orElse (query_tzOffset rq) (js ''0'')) of
               None \<Rightarrow> Num 0 | Some n \<Rightarrow> n)"
  by (simp add: click_payload_def Let_def)

lemma example_codes: "distinct (map code [example_link, other_link])"
  by (simp add: example_link_def other_link_def js_def)

lemma example_ids: "distinct (map link_id [example_link, other_link])"
  by (simp add: example_link_def other_link_def js_def)

lemma example_gen_fresh: "example_gen 1 \<notin> code ` set [example_link, other_link]"
  by (simp add: example_gen_def example_link_def other_link_def js_def)

lemma example_create_safe: "isSafeUrl (cv_longUrl example_create)"
  by (simp add: example_create_def isSafeUrl_def http_s_def privateNets_def js_eval)

lemma post_link_unsafe_iff:
  "post_link L gen now newId user (Inr v) ls = Some (Message 400 (js ''Unsafe URL''), ls)
     \<longleftrightarrow> \<not> isSafeUrl (cv_longUrl v)"
  by (auto simp: post_link_def choose_code_def Let_def js_def split: option.splits sum.splits)

lemma patch_link_unsafe_iff:
  assumes "uv_longUrl v = Some u" and "u \<noteq> []"
  shows "patch_link L now user params_id (Inr v) ls = (Message 400 (js ''Unsafe URL''), ls)
     \<longleftrightarrow> \<not> isSafeUrl u"
  using assms
  by (auto simp: patch_link_def truthy_def orElse_def Let_def js_def split: option.splits)

lemma links_keep_safe_urls_post:
  assumes "\<forall>l\<in>set ls. isSafeUrl (longUrl l)"
    and "post_link L gen now newId user validated ls = Some (r, ls')"
  shows "\<forall>l\<in>set ls'. isSafeUrl (longUrl l)"
  using assms
  by (auto simp: post_link_def new_link_def Let_def split: sum.splits if_splits option.splits)

lemma count_list_map_key:
  "count_list (map key xs) k = length (filter (\<lambda>x. key x = k) xs)"
  by (induction xs) simp_all

lemma group_count_total: "sum_list (map snd (group_count key xs)) = length xs"
proof -
  have "map snd (group_count key xs)
      = map (\<lambda>k. count_list (map key xs) k) (remdups (map key xs))"
    unfolding group_count_def count_list_map_key by (simp add: comp_def)
  then have "sum_list (map snd (group_count key xs))
      = sum_list (map (count_list (map key xs)) (remdups (map key xs)))"
    by simp
  also have "\<dots> = sum (count_list (map key xs)) (set (remdups (map key xs)))"
    by (rule sum_list_distinct_conv_sum_set) simp
  also have "\<dots> = sum (count_list (map key xs)) (set (map key xs))"
    by simp
  also have "\<dots> = length (map key xs)"
    by (rule sum_count_set) simp_all
  finally show ?thesis by simp
qed

lemma sum_list_insort_key:
  "sum_list (map f (insort_key g x xs)) = (f x :: nat) + sum_list (map f xs)"
  by (induction xs) auto

lemma sum_list_sort_key: "sum_list (map f (sort_key g xs)) = (sum_list (map f xs) :: nat)"
  by (induction xs) (auto simp: sum_list_insort_key)

lemma byDay_total:
  "sum_list (map snd (byDay_aggregate L tzMin fmt matched)) = length matched"
  by (simp add: byDay_aggregate_def sum_list_sort_key group_count_total)

lemma remdups_unit: "xs \<noteq> [] \<Longrightarrow> remdups (map (\<lambda>c. ()) xs) = [()]"
proof (induction xs)
  case Nil
  then show ?case by simp
next
  case (Cons x xs)
  then show ?case by (cases xs) simp_all
qed

lemma totals_count: "first_clicks (totals_aggregate matched) = length matched"
proof (cases matched)
  case Nil
  then show ?thesis by (simp add: first_clicks_def totals_aggregate_def group_count_def)
next
  case (Cons c cs)
  then have "remdups (map (\<lambda>c. ()) matched) = [()]"
    by (intro remdups_unit) simp
  then show ?thesis by (simp add: first_clicks_def totals_aggregate_def group_count_def)
qed

lemma deleteOne_filter_other:
  "(\<And>x. P x \<Longrightarrow> \<not> Q x) \<Longrightarrow> filter Q (deleteOne P xs) = filter Q xs"
  by (induction xs) simp_all

lemma deleteOne_filter_own:
  "filter Q (deleteOne (\<lambda>x. A x \<and> Q x) xs) = deleteOne A (filter Q xs)"
  by (induction xs) simp_all

lemma deleteOne_removed:
  "x \<in> set xs \<Longrightarrow> x \<notin> set (deleteOne P xs) \<Longrightarrow> P x"
  by (induction xs) (auto split: if_splits)

lemma step_frame:
  assumes "w \<noteq> u"
  shows "own_views w (snd (step L u x s)) = own_views w s \<and>
         own_annotations w (snd (step L u x s)) = own_annotations w s"
proof (cases x)
  case ListViews
  then show ?thesis by simp
next
  case (CreateView now newId b)
  then show ?thesis
    using assms by (simp add: post_view_def own_views_def own_annotations_def Let_def)
next
  case (DeleteView i)
  have "filter (\<lambda>v. view_ownerId v = w)
          (deleteOne (\<lambda>v. view_id v = j \<and> view_ownerId v = u) (views s))
        = filter (\<lambda>v. view_ownerId v = w) (views s)" for j
    using assms by (intro deleteOne_filter_other) simp
  then show ?thesis
    using DeleteView
    by (simp add: delete_view_def own_views_def own_annotations_def split: option.splits)
next
  case (ListAnnotations now r0)
  then show ?thesis by simp
next
  case (CreateAnnotation now newId b)
  then show ?thesis
    using assms
    by (simp add: post_annotation_def own_views_def own_annotations_def split: option.splits)
next
  case (DeleteAnnotation i)
  have "filter (\<lambda>a. ann_ownerId a = w)
          (deleteOne (\<lambda>a. ann_id a = j \<and> ann_ownerId a = u) (annotations s))
        = filter (\<lambda>a. ann_ownerId a = w) (annotations s)" for j
    using assms by (intro deleteOne_filter_other) simp
  then show ?thesis
    using DeleteAnnotation
    by (simp add: delete_annotation_def own_views_def own_annotations_def split: option.splits)
qed

lemma get_views_own:
  "get_views u s = AViews (map view_to_json (sort_key (\<lambda>v. - view_updatedAt v) (own_views u s)))"
  by (simp add: get_views_def own_views_def)

lemma get_annotations_own:
  "get_annotations L now u r0 s =
     AAnnotations (map ann_to_json (sort_key ann_ts
       (filter (\<lambda>a. ann_ts a \<ge> now - window (parseRange L r0)) (own_annotations u s))))"
proof -
  have "filter (\<lambda>a. ann_ownerId a = u \<and> ann_ts a \<ge> now - window (parseRange L r0)) (annotations s)
      = filter (\<lambda>a. ann_ts a \<ge> now - window (parseRange L r0)) (own_annotations u s)"
    by (simp add: own_annotations_def conj_commute)
  then show ?thesis by (simp add: get_annotations_def Let_def)
qed

lemma step_own:
  assumes "own_views u s2 = own_views u s" and "own_annotations u s2 = own_annotations u s"
  shows "fst (step L u x s2) = fst (step L u x s) \<and>
         own_views u (snd (step L u x s2)) = own_views u (snd (step L u x s)) \<and>
         own_annotations u (snd (step L u x s2)) = own_annotations u (snd (step L u x s))"
proof (cases x)
  case ListViews
  then show ?thesis using assms by (simp add: get_views_own)
next
  case (CreateView now newId b)
  then show ?thesis
    using assms by (simp add: post_view_def own_views_def own_annotations_def Let_def)
next
  case (DeleteView i)
  then show ?thesis
    using assms
    by (simp add: delete_view_def own_views_def own_annotations_def deleteOne_filter_own
        split: option.splits)
next
  case (ListAnnotations now r0)
  then show ?thesis using assms by (simp add: get_annotations_own)
next
  case (CreateAnnotation now newId b)
  then show ?thesis
    using assms
    by (simp add: post_annotation_def own_views_def own_annotations_def split: option.splits)
next
  case (DeleteAnnotation i)
  then show ?thesis
    using assms
    by (simp add: delete_annotation_def own_views_def own_annotations_def deleteOne_filter_own
        split: option.splits)
qed

lemma run_frame:
  assumes "w \<noteq> u"
  shows "own_views w (snd (run L u xs s)) = own_views w s \<and>
         own_annotations w (snd (run L u xs s)) = own_annotations w s"
proof (induction xs arbitrary: s)
  case Nil
  then show ?case by simp
next
  case (Cons x xs)
  have "snd (run L u (x # xs) s) = snd (run L u xs (snd (step L u x s)))"
    by (simp add: case_prod_beta)
  then show ?case
    using Cons.IH [of "snd (step L u x s)"] step_frame [OF assms, of L x s] by simp
qed

lemma run_own:
  assumes "own_views u s2 = own_views u s" and "own_annotations u s2 = own_annotations u s"
  shows "fst (run L u xs s2) = fst (run L u xs s)"
  using assms
proof (induction xs arbitrary: s s2)
  case Nil
  then show ?case by simp
next
  case (Cons x xs)
  note S = step_own [OF Cons.prems, of L x]
  have "fst (run L u xs (snd (step L u x s2))) = fst (run L u xs (snd (step L u x s)))"
    using S by (intro Cons.IH) simp_all
  then show ?case using S by (simp add: case_prod_beta)
qed

lemma longUrl_apply_set:
  "longUrl (apply_set L now v l) = (case uv_longUrl v of None \<Rightarrow> longUrl l | Some u \<Rightarrow> u)"
  by (simp add: apply_set_def Let_def)

lemma links_keep_safe_urls_patch:
  assumes safe: "\<forall>l\<in>set ls. isSafeUrl (longUrl l)"
    and joi: "\<forall>v. validated = Inr v \<longrightarrow> uv_longUrl v \<noteq> Some []"
  shows "\<forall>l\<in>set (snd (patch_link L now user params_id validated ls)). isSafeUrl (longUrl l)"
proof (cases validated)
  case (Inl msg)
  then show ?thesis using safe by (simp add: patch_link_def)
next
  case (Inr v)
  show ?thesis
  proof (cases "snd (patch_link L now user params_id validated ls) = ls")
    case True
    then show ?thesis using safe by simp
  next
    case False
    then obtain i where upd: "snd (patch_link L now user params_id validated ls)
        = updateOne (\<lambda>l. link_id l = i \<and> link_ownerId l = user) (apply_set L now v) ls"
      and ok: "\<not> (truthy (uv_longUrl v) \<and> \<not> isSafeUrl (orElse (uv_longUrl v) []))"
      using Inr by (auto simp: patch_link_def Let_def split: if_splits option.splits)
    have new: "isSafeUrl (longUrl (apply_set L now v x))" if "x \<in> set ls" for x
    proof (cases "uv_longUrl v")
      case None
      then show ?thesis using safe that by (simp add: longUrl_apply_set)
    next
      case (Some u)
      then have "u \<noteq> []" using joi Inr by auto
      then show ?thesis using ok Some by (simp add: longUrl_apply_set truthy_def orElse_def)
    qed
    show ?thesis
      unfolding upd
      using updateOne_set [of "\<lambda>l. link_id l = i \<and> link_ownerId l = user" "apply_set L now v" ls]
        safe new by auto
  qed
qed

section \<open>The redirect and its guards\<close>

text \<open>
  Claim C1, as amended. A request to \<open>GET /r/:code\<close> that both rate limiters of the
  route let through meets the guards of the handler in a fixed order. With \<open>found\<close> the
  link whose code is the path parameter trimmed of surrounding whitespace: no link, or an
  inactive one, gives 404; otherwise an expiry date strictly before now gives 410;
  otherwise a nonzero cap that the click counter has reached gives 429; otherwise, once
  the password gate lets the request through, the response is a 302 to the link's long
  URL. The first three answers hand nothing to the click log.
\<close>

theorem redirect_guard_order:
  assumes "redirectLimiter rq = None" and "perLinkLimiter rq = None"
    and "c = trim (orElse (params_code rq) [])"
    and "found = findOne (\<lambda>l. code l = c) ls"
    and "R = redirect_route redirectLimiter perLinkLimiter L now ls rq"
  shows "(found = None \<longrightarrow> R = (Send 404 page404, None)) \<and>
         (\<forall>l. found = Some l \<longrightarrow>
            (\<not> isActive l \<longrightarrow> R = (Send 404 page404, None)) \<and>
            (isActive l \<and> (\<exists>e. expiresAt l = Some e \<and> e < now) \<longrightarrow> R = (Send 410 page410, None)) \<and>
            (isActive l \<and> \<not> (\<exists>e. expiresAt l = Some e \<and> e < now) \<and>
               maxClicks l \<noteq> 0 \<and> clicksCount l \<ge> maxClicks l \<longrightarrow> R = (Send 429 page429, None)) \<and>
            (isActive l \<and> \<not> (\<exists>e. expiresAt l = Some e \<and> e < now) \<and>
               \<not> (maxClicks l \<noteq> 0 \<and> clicksCount l \<ge> maxClicks l) \<and>
               password_gate L l c rq = None \<longrightarrow>
               fst R = Redirect 302 (longUrl l) []))"
  using assms
  by (auto simp: redirect_route_def redirect_get_def Let_def expired_def capped_def
      split: option.splits)

theorem redirect_guard_order_witness:
  "redirect_route (\<lambda>rq. None) (\<lambda>rq. None) example_libs 5000 [] example_request
     = (Send 404 page404, None) \<and>
   redirect_route (\<lambda>rq. None) (\<lambda>rq. None) example_libs 5000
       [example_link\<lparr>isActive := False\<rparr>] example_request
     = (Send 404 page404, None) \<and>
   redirect_route (\<lambda>rq. None) (\<lambda>rq. None) example_libs 5000
       [example_link\<lparr>expiresAt := Some 4999\<rparr>] example_request
     = (Send 410 page410, None) \<and>
   redirect_route (\<lambda>rq. None) (\<lambda>rq. None) example_libs 5000
       [example_link\<lparr>maxClicks := 3, clicksCount := 3\<rparr>] example_request
     = (Send 429 page429, None) \<and>
   fst (redirect_route (\<lambda>rq. None) (\<lambda>rq. None) example_libs 5000 [example_link]
       example_request)
     = Redirect 302 (js ''https://example.com/page'') []"
proof -
  note T = redirect_guard_order [OF refl refl refl refl refl, where L = example_libs
      and now = 5000 and rq = example_request]
  show ?thesis
    using T [where ls = "[]"] T [where ls = "[example_link\<lparr>isActive := False\<rparr>]"]
      T [where ls = "[example_link\<lparr>expiresAt := Some 4999\<rparr>]"]
      T [where ls = "[example_link\<lparr>maxClicks := 3, clicksCount := 3\<rparr>]"]
      T [where ls = "[example_link]"]
    by (simp add: findOne_def example_request_def example_link_def orElse_def trim_code
        password_gate_def truthy_def)
qed

text \<open>
  The claim as written speaks of every request and of the code as requested. A request
  that a rate limiter answers gets the limiter's 429 although no link exists; and the
  request \<open>/r/%20abc1234\<close>, whose code no link has, is answered with the redirect of the
  link \<open>abc1234\<close>, since the handler trims the parameter before it looks the link up.
\<close>

theorem redirect_guard_order_counterexample:
  "fst (redirect_route
      (\<lambda>rq. Some (Send 429 (PlainText (js ''Too many requests, please try again later.''))))
      (\<lambda>rq. None) example_libs 5000 [] example_request)
     = Send 429 (PlainText (js ''Too many requests, please try again later.'')) \<and>
   findOne (\<lambda>l. code l = js '' abc1234'') [example_link] = None \<and>
   fst (redirect_route (\<lambda>rq. None) (\<lambda>rq. None) example_libs 5000 [example_link]
      (example_request\<lparr>params_code := Some (js '' abc1234'')\<rparr>))
     = Redirect 302 (js ''https://example.com/page'') []"
proof -
  have t: "trim (js '' abc1234'') = js ''abc1234''"
    by (simp add: js_eval)
  show ?thesis
    by (simp add: redirect_route_def redirect_get_def findOne_def example_request_def
        example_link_def orElse_def t expired_def capped_def password_gate_def truthy_def)
       (simp add: js_def)
qed

text \<open>
  Claim C8. A link whose \<open>maxClicks\<close> is 0 is never answered 429, whatever its click
  counter: the "Max clicks reached" page is sent exactly when the link is active, not
  expired, its cap is nonzero and the counter has reached the cap.
\<close>

theorem max_clicks_zero_unlimited:
  assumes "findOne (\<lambda>l. code l = trim (orElse (params_code rq) [])) ls = Some l"
  shows "(maxClicks l = 0 \<longrightarrow> status (fst (redirect_get L now ls rq)) \<noteq> 429) \<and>
         (fst (redirect_get L now ls rq) = Send 429 page429 \<longleftrightarrow>
            isActive l \<and> \<not> expired now l \<and> maxClicks l \<noteq> 0 \<and> clicksCount l \<ge> maxClicks l)"
  using assms
  by (auto simp: redirect_get_def Let_def capped_def password_gate_def split: option.splits)

theorem max_clicks_zero_unlimited_witness:
  "status (fst (redirect_get example_libs 5000
      [example_link\<lparr>maxClicks := 0, clicksCount := 1000000\<rparr>] example_request)) \<noteq> 429 \<and>
   fst (redirect_get example_libs 5000
      [example_link\<lparr>maxClicks := 0, clicksCount := 1000000\<rparr>] example_request)
     \<noteq> Send 429 page429"
proof -
  have found: "findOne (\<lambda>l. code l = trim (orElse (params_code example_request) []))
      [example_link\<lparr>maxClicks := 0, clicksCount := 1000000\<rparr>]
      = Some (example_link\<lparr>maxClicks := 0, clicksCount := 1000000\<rparr>)"
    by (simp add: findOne_def example_request_def example_link_def orElse_def trim_code)
  show ?thesis
    using max_clicks_zero_unlimited [OF found, where L = example_libs and now = 5000] by simp
qed

text \<open>
  Claim C2, as amended. Take a link with a password hash (an ObjectId as its id, a long
  URL that passed the safety check) and the redirect endpoint, rate limiters included,
  which answer 429 when they answer. The endpoint sends a 302 to the long URL, or hands
  a click to the log, only if the request carries the signed cookie \<open>sl_pw_ok_<linkId>\<close>
  with value "1" or a \<open>pw\<close> parameter that bcrypt accepts against the hash. With
  neither, a request that both limiters let through, for a link that is active, not
  expired and under its cap, is answered with a 302 to the unlock page of the link; and
  every request with neither is answered with that 302 or with a 404, 410 or 429, and
  logs nothing.
\<close>

theorem password_gate_required:
  assumes found: "findOne (\<lambda>l. code l = c) ls = Some l"
    and c: "c = trim (orElse (params_code rq) [])"
    and h: "passwordHash l = Some h" "h \<noteq> []"
    and oid: "list_all key_char (link_id l)"
    and safe: "isSafeUrl (longUrl l)"
    and okCookie: "okCookie = (signedCookies rq (js ''sl_pw_ok_'' @ link_id l) = Some (js ''1''))"
    and okPw: "okPw = (\<exists>pw. query_pw rq = Some pw \<and> pw \<noteq> [] \<and> bcrypt_compareSync L pw h)"
    and lim1: "\<forall>r. redirectLimiter rq = Some r \<longrightarrow> (\<exists>p. r = Send 429 p)"
    and lim2: "\<forall>r. perLinkLimiter rq = Some r \<longrightarrow> (\<exists>p. r = Send 429 p)"
    and R: "R = redirect_route redirectLimiter perLinkLimiter L now ls rq"
  shows "((\<exists>cs. fst R = Redirect 302 (longUrl l) cs) \<longrightarrow> okCookie \<or> okPw) \<and>
         (snd R \<noteq> None \<longrightarrow> okCookie \<or> okPw) \<and>
         (\<not> okCookie \<and> \<not> okPw \<and> redirectLimiter rq = None \<and> perLinkLimiter rq = None \<and>
            isActive l \<and> \<not> expired now l \<and> \<not> capped l \<longrightarrow>
            R = (Redirect 302 (unlock_url c) [], None)) \<and>
         (\<not> okCookie \<and> \<not> okPw \<longrightarrow>
            snd R = None \<and>
            (fst R = Redirect 302 (unlock_url c) [] \<or>
             (\<exists>p. fst R = Send 404 p \<or> fst R = Send 410 p \<or> fst R = Send 429 p)))"
proof -
  define G where "G = redirect_get L now ls rq"
  have key: "cookieKey (link_id l) = js ''sl_pw_ok_'' @ link_id l"
    using oid by (rule cookieKey_objectid)
  have pw: "(orElse (query_pw rq) [] \<noteq> [] \<and> comparePassword L (orElse (query_pw rq) []) (Some h)) = okPw"
    using h okPw by (auto simp: orElse_def comparePassword_def split: option.splits)
  have gate: "\<not> okCookie \<Longrightarrow> \<not> okPw \<Longrightarrow> password_gate L l c rq = Some (Redirect 302 (unlock_url c) [])"
    using h key okCookie pw by (auto simp: password_gate_def truthy_def Let_def)
  have ne: "longUrl l \<noteq> unlock_url c"
    using safe unlock_url_unsafe by metis
  have blocked: "\<not> okCookie \<Longrightarrow> \<not> okPw \<Longrightarrow>
      snd G = None \<and> (\<forall>cs. fst G \<noteq> Redirect 302 (longUrl l) cs)"
    using found c gate ne by (auto simp: G_def redirect_get_def Let_def)
  have pass: "\<not> okCookie \<Longrightarrow> \<not> okPw \<Longrightarrow> isActive l \<Longrightarrow> \<not> expired now l \<Longrightarrow> \<not> capped l \<Longrightarrow>
      G = (Redirect 302 (unlock_url c) [], None)"
    using found c gate by (simp add: G_def redirect_get_def Let_def)
  have shape: "\<not> okCookie \<Longrightarrow> \<not> okPw \<Longrightarrow>
      fst G = Redirect 302 (unlock_url c) [] \<or>
      (\<exists>p. fst G = Send 404 p \<or> fst G = Send 410 p \<or> fst G = Send 429 p)"
    using found c gate by (auto simp: G_def redirect_get_def Let_def)
  consider (first) r where "redirectLimiter rq = Some r"
    | (second) r where "redirectLimiter rq = None" "perLinkLimiter rq = Some r"
    | (handler) "redirectLimiter rq = None" "perLinkLimiter rq = None"
    by (cases "redirectLimiter rq"; cases "perLinkLimiter rq") auto
  then show ?thesis
  proof cases
    case first
    then obtain p where "r = Send 429 p" using lim1 by blast
    then have "R = (Send 429 p, None)" using first R by (simp add: redirect_route_def)
    then show ?thesis using first by simp
  next
    case second
    then obtain p where "r = Send 429 p" using lim2 by blast
    then have "R = (Send 429 p, None)" using second R by (simp add: redirect_route_def)
    then show ?thesis using second by simp
  next
    case handler
    then have "R = G" using R by (simp add: redirect_route_def G_def)
    then show ?thesis using blocked pass shape by (cases okCookie; cases okPw; simp)
  qed
qed

theorem password_gate_required_witness:
  "redirect_route (\<lambda>rq. None) (\<lambda>rq. None) example_libs 5000 [locked_link] example_request
     = (Redirect 302 (js ''/r/abc1234/unlock'') [], None) \<and>
   redirect_route (\<lambda>rq. None) (\<lambda>rq. None) example_libs 5000 [locked_link]
       (example_request\<lparr>query_pw := Some (js ''wrong'')\<rparr>)
     = (Redirect 302 (js ''/r/abc1234/unlock'') [], None)"
proof -
  have found: "findOne (\<lambda>l. code l = js ''abc1234'') [locked_link] = Some locked_link"
    by (simp add: findOne_def locked_link_def example_link_def)
  have c: "js ''abc1234'' = trim (orElse (params_code example_request) [])"
    by (simp add: example_request_def orElse_def trim_code)
  have c': "js ''abc1234''
      = trim (orElse (params_code (example_request\<lparr>query_pw := Some (js ''wrong'')\<rparr>)) [])"
    by (simp add: example_request_def orElse_def trim_code)
  have h: "passwordHash locked_link = Some (js ''bcrypt:hunter2'')" "js ''bcrypt:hunter2'' \<noteq> []"
    by (simp_all add: locked_link_def js_def)
  have oid: "list_all key_char (link_id locked_link)"
    by (simp add: locked_link_def example_link_def js_def key_char_def)
  have safe: "isSafeUrl (longUrl locked_link)"
    by (simp add: locked_link_def example_link_def isSafeUrl_def http_s_def privateNets_def js_eval)
  have lim: "\<forall>r. (\<lambda>rq. None :: response option) rq = Some r \<longrightarrow> (\<exists>p. r = Send 429 p)" for rq :: request
    by simp
  have facts: "isActive locked_link" "\<not> expired 5000 locked_link" "\<not> capped locked_link"
    by (simp_all add: locked_link_def example_link_def expired_def capped_def)
  have u: "unlock_url (js ''abc1234'') = js ''/r/abc1234/unlock''"
    by (simp add: unlock_url_def js_def)
  have wrong: "\<not> bcrypt_compareSync example_libs (js ''wrong'') (js ''bcrypt:hunter2'')"
    by (simp add: example_libs_def js_def)
  show ?thesis
    using password_gate_required [OF found c h oid safe refl refl lim lim refl,
        where L = example_libs and now = 5000]
      password_gate_required [OF found c' h oid safe refl refl lim lim refl,
        where L = example_libs and now = 5000]
      facts u wrong
    by (simp add: example_request_def)
qed

text \<open>
  The claim as written sends every request without cookie and password to the unlock
  page. The rate limiters and the guards of C1 come first: such a request for a link
  with a password hash is answered 429 when a limiter stops it, although the link is
  active, not expired and under its cap; and it is answered 410 when the link has
  expired.
\<close>

theorem password_gate_required_counterexample:
  "passwordHash locked_link = Some (js ''bcrypt:hunter2'') \<and>
   passwordHash (locked_link\<lparr>expiresAt := Some 4999\<rparr>) = Some (js ''bcrypt:hunter2'') \<and>
   signedCookies example_request (js ''sl_pw_ok_65a1b2c3d4e5f60718293a4b'') = None \<and>
   query_pw example_request = None \<and>
   isActive locked_link \<and> \<not> expired 5000 locked_link \<and> \<not> capped locked_link \<and>
   redirect_route
       (\<lambda>rq. Some (Send 429 (PlainText (js ''Too many requests, please try again later.''))))
       (\<lambda>rq. None) example_libs 5000 [locked_link] example_request
     = (Send 429 (PlainText (js ''Too many requests, please try again later.'')), None) \<and>
   redirect_route (\<lambda>rq. None) (\<lambda>rq. None) example_libs 5000
       [locked_link\<lparr>expiresAt := Some 4999\<rparr>] example_request
     = (Send 410 page410, None) \<and>
   Send 410 page410 \<noteq> Redirect 302 (unlock_url (js ''abc1234'')) []"
  by (simp add: redirect_route_def redirect_get_def findOne_def locked_link_def example_link_def
      example_request_def orElse_def trim_code expired_def capped_def)

section \<open>Click logging\<close>

text \<open>
  Claim C3, as amended. With document ids unique, logging one click through the inline
  fallback appends exactly one Click holding the payload's fields (the timestamp
  defaulting to the time of the create, the referer to "direct"), adds 1 to
  \<open>clicksCount\<close> of the link whose id is \<open>payload.linkId\<close> and, the schema having
  \<open>timestamps: true\<close>, sets that link's \<open>updatedAt\<close> to the time of the update. Code, long
  URL, domain, active flag, expiry, password hash, cap, meta, owner, id and \<open>createdAt\<close> of
  that link, and every other link, are unchanged. The payload the redirect builds holds
  the client address only through \<open>ipHash\<close>: requests that differ in the address headers
  alone and hash alike give the same payload.
\<close>

theorem log_click_effect:
  assumes ids: "distinct (map link_id (links d))"
    and d': "d' = inline_fallback t1 t2 newId p d"
  shows "clicks d' = clicks d @
           [\<lparr> click_id = newId, linkId = p_linkId p,
              ts = (case p_ts p of None \<Rightarrow> t1 | Some t \<Rightarrow> t),
              referer = (case p_referer p of None \<Rightarrow> js ''direct'' | Some r \<Rightarrow> r),
              country = p_country p, ua = p_ua p, device = p_device p,
              browser = p_browser p, ipHash = p_ipHash p, tzOffset = p_tzOffset p,
              click_utm = p_utm p \<rparr>] \<and>
         links d' = map (\<lambda>l. if link_id l = p_linkId p
                              then l\<lparr>clicksCount := clicksCount l + 1, updatedAt := t2\<rparr>
                              else l) (links d) \<and>
         length (links d') = length (links d) \<and>
         (\<forall>i < length (links d).
            let l = links d ! i; l' = links d' ! i in
              clicksCount l' = clicksCount l + (if link_id l = p_linkId p then 1 else 0) \<and>
              link_id l' = link_id l \<and> link_ownerId l' = link_ownerId l \<and>
              code l' = code l \<and> longUrl l' = longUrl l \<and> domain l' = domain l \<and>
              isActive l' = isActive l \<and> expiresAt l' = expiresAt l \<and>
              passwordHash l' = passwordHash l \<and> maxClicks l' = maxClicks l \<and>
              link_meta l' = link_meta l \<and> createdAt l' = createdAt l \<and>
              (link_id l \<noteq> p_linkId p \<longrightarrow> l' = l)) \<and>
         (\<forall>L now l rq x y.
            ip_hash L now (client_ip (rq\<lparr>header_x_forwarded_for := x, socket_remoteAddress := y\<rparr>))
              = ip_hash L now (client_ip rq) \<longrightarrow>
            click_payload L now l (rq\<lparr>header_x_forwarded_for := x, socket_remoteAddress := y\<rparr>)
              = click_payload L now l rq)"
proof -
  have L: "links d' = map (\<lambda>l. if link_id l = p_linkId p
                              then l\<lparr>clicksCount := clicksCount l + 1, updatedAt := t2\<rparr>
                              else l) (links d)"
    using ids d' by (simp add: inline_fallback_def inc_clicksCount_def updateOne_distinct Let_def)
  have C: "clicks d' = clicks d @ [Click_create t1 newId p]"
    using d' by (simp add: inline_fallback_def Let_def)
  have H: "\<forall>L now l rq x y.
            ip_hash L now (client_ip (rq\<lparr>header_x_forwarded_for := x, socket_remoteAddress := y\<rparr>))
              = ip_hash L now (client_ip rq) \<longrightarrow>
            click_payload L now l (rq\<lparr>header_x_forwarded_for := x, socket_remoteAddress := y\<rparr>)
              = click_payload L now l rq"
    using hashed_ip_only by blast
  show ?thesis
    unfolding L using C H by (simp add: Click_create_def Let_def)
qed

theorem log_click_effect_witness:
  "clicks (inline_fallback 7000 7001 (js ''65a1b2c3d4e5f60718293a4c'') example_payload
      \<lparr> links = [example_link], clicks = [] \<rparr>)
     = [\<lparr> click_id = js ''65a1b2c3d4e5f60718293a4c'', linkId = js ''65a1b2c3d4e5f60718293a4b'',
          ts = 7000, referer = js ''direct'', country = None, ua = Some [],
          device = Some (js ''desktop''), browser = Some (js ''Unknown''),
          ipHash = Some (js ''0123456789abcdef0123456789abcdef''), tzOffset = Some (Num 0),
          click_utm = None \<rparr>] \<and>
   links (inline_fallback 7000 7001 (js ''65a1b2c3d4e5f60718293a4c'') example_payload
      \<lparr> links = [example_link], clicks = [] \<rparr>)
     = [example_link\<lparr>clicksCount := 1, updatedAt := 7001\<rparr>]"
proof -
  have ids: "distinct (map link_id (links \<lparr> links = [example_link], clicks = [] \<rparr>))"
    by simp
  have p: "example_payload =
      \<lparr> p_linkId = js ''65a1b2c3d4e5f60718293a4b'', p_ts = None, p_referer = Some (js ''direct''),
        p_tzOffset = Some (Num 0), p_utm = None,
        p_ipHash = Some (js ''0123456789abcdef0123456789abcdef''), p_ua = Some [],
        p_country = None, p_device = Some (js ''desktop''), p_browser = Some (js ''Unknown'') \<rparr>"
    by (simp add: example_payload_def click_payload_def example_request_def example_link_def
        example_libs_def example_parseInt_def orElse_def parseUTM_def slice64_def client_ip_def
        ip_hash_def
        getCountryFromHeaders_def truthy_def parseUA_def Let_def js_def)
  show ?thesis
    using log_click_effect [OF ids refl, where ?t1.0 = 7000 and ?t2.0 = 7001
        and newId = "js ''65a1b2c3d4e5f60718293a4c''" and p = example_payload]
    by (simp add: p example_link_def)
qed

text \<open>
  The claim as written has the counter as the only change to the link. The update also
  stamps \<open>updatedAt\<close>: the links afterwards are not the links with only the counter raised.
\<close>

theorem log_click_effect_counterexample:
  "links (inline_fallback 7000 7001 (js ''65a1b2c3d4e5f60718293a4c'') example_payload
      \<lparr> links = [example_link], clicks = [] \<rparr>)
     \<noteq> [example_link\<lparr>clicksCount := clicksCount example_link + 1\<rparr>] \<and>
   map updatedAt (links (inline_fallback 7000 7001 (js ''65a1b2c3d4e5f60718293a4c'')
      example_payload \<lparr> links = [example_link], clicks = [] \<rparr>)) = [7001] \<and>
   updatedAt example_link = 1000"
  by (simp add: inline_fallback_def inc_clicksCount_def example_payload_def click_payload_def
      example_link_def Let_def)

text \<open>
  Claim C4, as amended. For every click payload whose \<open>tzOffset\<close> is not an infinity
  (the payloads that the JSON of the job data carries unchanged; the redirect builds
  such a payload whenever \<open>parseInt\<close> of the \<open>tzOffset\<close> parameter is finite, lemma
  \<open>click_payload_tzOffset\<close>), the queue path and the fallback path of click logging make
  the same transition of the store: whatever \<open>enqueueClick\<close> schedules (queue on or off,
  \<open>queue.add\<close> failing or not) creates one Click from the payload and then adds 1 to
  \<open>clicksCount\<close> of the link \<open>payload.linkId\<close>. The worker's body and the fallback are
  the same function of the data they are handed.
\<close>

theorem worker_equals_fallback:
  assumes "p_tzOffset p \<noteq> Some PosInfinity" and "p_tzOffset p \<noteq> Some NegInfinity"
  shows "run_scheduled t1 t2 newId (enqueueClick useQueue queue add_ok p) d
           = inline_fallback t1 t2 newId p d \<and>
         run_scheduled t1 t2 newId (enqueueClick True True True p) d
           = run_scheduled t1 t2 newId (enqueueClick False queue add_ok p) d \<and>
         clicks (run_scheduled t1 t2 newId (enqueueClick useQueue queue add_ok p) d)
           = clicks d @ [Click_create t1 newId p] \<and>
         links (run_scheduled t1 t2 newId (enqueueClick useQueue queue add_ok p) d)
           = inc_clicksCount t2 (p_linkId p) (links d) \<and>
         (\<forall>q. worker_body t1 t2 newId (Some q) d = inline_fallback t1 t2 newId q d)"
proof -
  have j: "json_copy p = p"
    using assms by (rule json_copy_finite)
  have w: "worker_body t1 t2 newId (Some q) d = inline_fallback t1 t2 newId q d" for q
    by (simp add: worker_body_def inline_fallback_def)
  have r: "run_scheduled t1 t2 newId (enqueueClick u1 u2 u3 p) d = inline_fallback t1 t2 newId p d"
    for u1 u2 u3
    by (simp add: enqueueClick_def j w)
  have e: "clicks (inline_fallback t1 t2 newId p d) = clicks d @ [Click_create t1 newId p]"
      "links (inline_fallback t1 t2 newId p d) = inc_clicksCount t2 (p_linkId p) (links d)"
    by (simp_all add: inline_fallback_def Let_def)
  show ?thesis
    using w e by (simp add: r)
qed

theorem worker_equals_fallback_witness:
  "run_scheduled 7000 7001 (js ''65a1b2c3d4e5f60718293a4c'')
      (enqueueClick True True True example_payload) \<lparr> links = [example_link], clicks = [] \<rparr>
     = run_scheduled 7000 7001 (js ''65a1b2c3d4e5f60718293a4c'')
      (enqueueClick False False False example_payload) \<lparr> links = [example_link], clicks = [] \<rparr> \<and>
   map clicksCount (links (run_scheduled 7000 7001 (js ''65a1b2c3d4e5f60718293a4c'')
      (enqueueClick True True True example_payload) \<lparr> links = [example_link], clicks = [] \<rparr>))
     = [1] \<and>
   map tzOffset (clicks (run_scheduled 7000 7001 (js ''65a1b2c3d4e5f60718293a4c'')
      (enqueueClick True True True example_payload) \<lparr> links = [example_link], clicks = [] \<rparr>))
     = [Some (Num 0)]"
proof -
  have p: "p_linkId example_payload = link_id example_link"
    by (simp add: example_payload_def click_payload_def Let_def)
  have tz: "p_tzOffset example_payload = Some (Num 0)"
    by (simp add: example_payload_def click_payload_tzOffset example_request_def orElse_def
        example_libs_def example_parseInt_def)
  have fin: "p_tzOffset example_payload \<noteq> Some PosInfinity"
      "p_tzOffset example_payload \<noteq> Some NegInfinity"
    by (simp_all add: tz)
  note T = worker_equals_fallback [OF fin, where ?t1.0 = 7000 and ?t2.0 = 7001
      and newId = "js ''65a1b2c3d4e5f60718293a4c''"
      and d = "\<lparr> links = [example_link], clicks = [] \<rparr>" and useQueue = True]
  have a: "run_scheduled 7000 7001 (js ''65a1b2c3d4e5f60718293a4c'')
      (enqueueClick True True True example_payload) \<lparr> links = [example_link], clicks = [] \<rparr>
     = run_scheduled 7000 7001 (js ''65a1b2c3d4e5f60718293a4c'')
      (enqueueClick False False False example_payload) \<lparr> links = [example_link], clicks = [] \<rparr>"
    using T [where queue = False and add_ok = False] by (rule conjunct2 [THEN conjunct1])
  have b: "links (run_scheduled 7000 7001 (js ''65a1b2c3d4e5f60718293a4c'')
      (enqueueClick True True True example_payload) \<lparr> links = [example_link], clicks = [] \<rparr>)
     = inc_clicksCount 7001 (p_linkId example_payload)
         (links \<lparr> links = [example_link], clicks = [] \<rparr>)"
    using T [where queue = True and add_ok = True]
    by (rule conjunct2 [THEN conjunct2, THEN conjunct2, THEN conjunct1])
  have c: "clicks (run_scheduled 7000 7001 (js ''65a1b2c3d4e5f60718293a4c'')
      (enqueueClick True True True example_payload) \<lparr> links = [example_link], clicks = [] \<rparr>)
     = clicks \<lparr> links = [example_link], clicks = [] \<rparr>
         @ [Click_create 7000 (js ''65a1b2c3d4e5f60718293a4c'') example_payload]"
    using T [where queue = True and add_ok = True]
    by (rule conjunct2 [THEN conjunct2, THEN conjunct1])
  have b': "map clicksCount (inc_clicksCount 7001 (p_linkId example_payload)
      (links \<lparr> links = [example_link], clicks = [] \<rparr>)) = [1]"
    by (simp add: inc_clicksCount_def p) (simp add: example_link_def)
  have c': "map tzOffset (clicks \<lparr> links = [example_link], clicks = [] \<rparr>
      @ [Click_create 7000 (js ''65a1b2c3d4e5f60718293a4c'') example_payload])
      = [Some (Num 0)]"
    by (simp add: Click_create_def tz)
  show ?thesis
    unfolding b c using a b' c' by (intro conjI)
qed

text \<open>
  The claim as written speaks of every click payload. \<open>GET /r/abc1234?tzOffset=99...9\<close>
  with four hundred digits makes \<open>parseInt\<close> return \<open>Infinity\<close>, which the redirect puts
  into the payload. The fallback stores the Click with \<open>tzOffset\<close> \<open>Infinity\<close>; the job data
  holds \<open>null\<close> in its place, and the worker stores the Click with \<open>tzOffset\<close> \<open>null\<close>.
\<close>

theorem worker_equals_fallback_counterexample:
  "p_tzOffset (click_payload example_libs 5000 example_link long_tz_request)
     = Some PosInfinity \<and>
   map tzOffset (clicks (run_scheduled 7000 7001 (js ''65a1b2c3d4e5f60718293a4c'')
      (enqueueClick False False False
         (click_payload example_libs 5000 example_link long_tz_request))
      \<lparr> links = [example_link], clicks = [] \<rparr>))
     = [Some PosInfinity] \<and>
   map tzOffset (clicks (run_scheduled 7000 7001 (js ''65a1b2c3d4e5f60718293a4c'')
      (enqueueClick True True True
         (click_payload example_libs 5000 example_link long_tz_request))
      \<lparr> links = [example_link], clicks = [] \<rparr>))
     = [None] \<and>
   run_scheduled 7000 7001 (js ''65a1b2c3d4e5f60718293a4c'')
      (enqueueClick True True True
         (click_payload example_libs 5000 example_link long_tz_request))
      \<lparr> links = [example_link], clicks = [] \<rparr>
     \<noteq> run_scheduled 7000 7001 (js ''65a1b2c3d4e5f60718293a4c'')
      (enqueueClick False False False
         (click_payload example_libs 5000 example_link long_tz_request))
      \<lparr> links = [example_link], clicks = [] \<rparr>"
proof -
  have o: "orElse (query_tzOffset long_tz_request) (js ''0'') = replicate 400 57"
    by (simp add: long_tz_request_def orElse_def)
  have tz: "p_tzOffset (click_payload example_libs 5000 example_link long_tz_request)
      = Some PosInfinity"
    by (simp add: click_payload_tzOffset o example_libs_def example_parseInt_long)
  have a: "map tzOffset (clicks (run_scheduled 7000 7001 (js ''65a1b2c3d4e5f60718293a4c'')
      (enqueueClick False False False
         (click_payload example_libs 5000 example_link long_tz_request))
      \<lparr> links = [example_link], clicks = [] \<rparr>)) = [Some PosInfinity]"
    by (simp add: enqueueClick_def inline_fallback_def Click_create_def tz Let_def)
  have b: "map tzOffset (clicks (run_scheduled 7000 7001 (js ''65a1b2c3d4e5f60718293a4c'')
      (enqueueClick True True True
         (click_payload example_libs 5000 example_link long_tz_request))
      \<lparr> links = [example_link], clicks = [] \<rparr>)) = [None]"
    by (simp add: enqueueClick_def worker_body_def Click_create_def json_copy_def
        json_number_def tz Let_def)
  have "[None] \<noteq> [Some PosInfinity]" by simp
  then show ?thesis using tz a b by metis
qed

section \<open>Short codes stay unique\<close>

text \<open>
  Claim C5, as amended. Let the codes and the ids of the stored links be pairwise
  distinct, the ids in the form the ObjectId cast returns. Then the codes are still
  distinct after \<open>POST /api/links\<close>, whenever it returns, and after
  \<open>PATCH /api/links/:id\<close> on a value whose code, if any, is a slug. Without a custom code
  the loop returns as soon as the generator yields a code that no link has, and the new
  link gets the first such code. A request with a custom code that a link already has
  creates and changes no link; the URL check comes first, so the answer is 409 "Code
  already taken" if the long URL of the request passes it and 400 "Unsafe URL" if not.
  The same holds for a rename to a code of a link other than the one the request
  addresses.
\<close>

theorem code_uniqueness_preserved:
  assumes codes: "distinct (map code ls)" and ids: "distinct (map link_id ls)"
    and canon: "\<forall>l\<in>set ls. castObjectId L (link_id l) = Some (link_id l)"
  shows "(\<forall>r ls'. post_link L gen now newId user cval ls = Some (r, ls') \<longrightarrow>
            distinct (map code ls')) \<and>
         ((\<forall>v c. uval = Inr v \<and> uv_code v = Some c \<longrightarrow> slug c) \<longrightarrow>
            distinct (map code (snd (patch_link L now user params_id uval ls)))) \<and>
         (\<forall>v. isSafeUrl (cv_longUrl v) \<and> trim (orElse (cv_code v) []) = [] \<and>
              (\<exists>n. gen n \<notin> code ` set ls) \<longrightarrow>
              (\<exists>doc. post_link L gen now newId user (Inr v) ls
                        = Some (LinkJson doc (buildShortUrl L doc), ls @ [doc]) \<and>
                     code doc = gen (LEAST n. gen n \<notin> code ` set ls) \<and>
                     code doc \<notin> code ` set ls)) \<and>
         (\<forall>v. trim (orElse (cv_code v) []) \<noteq> [] \<and>
              trim (orElse (cv_code v) []) \<in> code ` set ls \<longrightarrow>
              post_link L gen now newId user (Inr v) ls
                = Some (if isSafeUrl (cv_longUrl v)
                          then Message 409 (js ''Code already taken'')
                        else Message 400 (js ''Unsafe URL''), ls)) \<and>
         (\<forall>v c e. uv_code v = Some c \<and> c \<noteq> [] \<and> e \<in> set ls \<and> code e = c \<and>
              (castObjectId L params_id \<noteq> Some (link_id e) \<or> link_id e \<noteq> params_id) \<longrightarrow>
              patch_link L now user params_id (Inr v) ls
                = (if truthy (uv_longUrl v) \<and> \<not> isSafeUrl (orElse (uv_longUrl v) [])
                     then Message 400 (js ''Unsafe URL'')
                   else Message 409 (js ''Code already taken''), ls))"
proof (intro conjI allI impI)
  fix r ls' assume "post_link L gen now newId user cval ls = Some (r, ls')"
  then show "distinct (map code ls')" using codes post_link_distinct by blast
next
  assume "\<forall>v c. uval = Inr v \<and> uv_code v = Some c \<longrightarrow> slug c"
  with codes ids canon
  show "distinct (map code (snd (patch_link L now user params_id uval ls)))"
    by (rule patch_link_distinct)
next
  fix v :: create_value
  assume "isSafeUrl (cv_longUrl v) \<and> trim (orElse (cv_code v) []) = [] \<and>
          (\<exists>n. gen n \<notin> code ` set ls)"
  then show "\<exists>doc. post_link L gen now newId user (Inr v) ls
                        = Some (LinkJson doc (buildShortUrl L doc), ls @ [doc]) \<and>
                     code doc = gen (LEAST n. gen n \<notin> code ` set ls) \<and>
                     code doc \<notin> code ` set ls"
    using post_link_auto by blast
next
  fix v :: create_value
  assume a: "trim (orElse (cv_code v) []) \<noteq> [] \<and>
             trim (orElse (cv_code v) []) \<in> code ` set ls"
  show "post_link L gen now newId user (Inr v) ls
          = Some (if isSafeUrl (cv_longUrl v)
                    then Message 409 (js ''Code already taken'')
                  else Message 400 (js ''Unsafe URL''), ls)"
  proof (cases "isSafeUrl (cv_longUrl v)")
    case True
    then show ?thesis using a post_link_taken by simp
  next
    case False
    then show ?thesis by (simp add: post_link_def)
  qed
next
  fix v :: update_value and c e
  assume a: "uv_code v = Some c \<and> c \<noteq> [] \<and> e \<in> set ls \<and> code e = c \<and>
             (castObjectId L params_id \<noteq> Some (link_id e) \<or> link_id e \<noteq> params_id)"
  have other: "link_id e \<noteq> params_id"
  proof
    assume "link_id e = params_id"
    then have "castObjectId L params_id = Some (link_id e)"
      using canon a by auto
    then show False using a \<open>link_id e = params_id\<close> by simp
  qed
  show "patch_link L now user params_id (Inr v) ls
          = (if truthy (uv_longUrl v) \<and> \<not> isSafeUrl (orElse (uv_longUrl v) [])
               then Message 400 (js ''Unsafe URL'')
             else Message 409 (js ''Code already taken''), ls)"
  proof (cases "truthy (uv_longUrl v) \<and> \<not> isSafeUrl (orElse (uv_longUrl v) [])")
    case True
    then show ?thesis by (simp add: patch_link_def)
  next
    case False
    have "patch_link L now user params_id (Inr v) ls
        = (Message 409 (js ''Code already taken''), ls)"
      using a other patch_link_taken [OF codes False] by blast
    then show ?thesis using False by simp
  qed
qed

theorem code_uniqueness_preserved_witness:
  "(\<exists>doc. post_link example_libs example_gen 6000 (js ''65a1b2c3d4e5f60718293a4e'')
             (js ''65a1b2c3d4e5f60718293a00'') (Inr example_create) [example_link, other_link]
           = Some (LinkJson doc (buildShortUrl example_libs doc),
                   [example_link, other_link, doc]) \<and>
          code doc \<noteq> js ''abc1234'' \<and> code doc \<noteq> js ''other42'') \<and>
   post_link example_libs example_gen 6000 (js ''65a1b2c3d4e5f60718293a4e'')
       (js ''65a1b2c3d4e5f60718293a00'')
       (Inr (example_create\<lparr>cv_code := Some (js ''other42'')\<rparr>)) [example_link, other_link]
     = Some (Message 409 (js ''Code already taken''), [example_link, other_link]) \<and>
   patch_link example_libs 6000 (js ''65a1b2c3d4e5f60718293a00'')
       (js ''65a1b2c3d4e5f60718293a4d'') (Inr example_update) [example_link, other_link]
     = (Message 409 (js ''Code already taken''), [example_link, other_link]) \<and>
   distinct (map code (snd (patch_link example_libs 6000 (js ''65a1b2c3d4e5f60718293a00'')
       (js ''65a1b2c3d4e5f60718293a4b'') (Inr example_update) [example_link, other_link])))"
proof -
  note T = code_uniqueness_preserved [OF example_codes example_ids example_canonical,
      where gen = example_gen and now = 6000
        and newId = "js ''65a1b2c3d4e5f60718293a4e''" and user = "js ''65a1b2c3d4e5f60718293a00''"]
  have fresh: "\<exists>n. example_gen n \<notin> code ` set [example_link, other_link]"
    using example_gen_fresh by blast
  have auto_code: "trim (orElse (cv_code example_create) []) = []"
    by (simp add: example_create_def orElse_def trim_def)
  have a: "\<exists>doc. post_link example_libs example_gen 6000 (js ''65a1b2c3d4e5f60718293a4e'')
             (js ''65a1b2c3d4e5f60718293a00'') (Inr example_create) [example_link, other_link]
           = Some (LinkJson doc (buildShortUrl example_libs doc),
                   [example_link, other_link] @ [doc]) \<and>
          code doc = example_gen (LEAST n. example_gen n \<notin> code ` set [example_link, other_link]) \<and>
          code doc \<notin> code ` set [example_link, other_link]"
    using T [THEN conjunct2, THEN conjunct2, THEN conjunct1, rule_format, of example_create]
      example_create_safe auto_code fresh by blast
  have custom: "trim (orElse (cv_code (example_create\<lparr>cv_code := Some (js ''other42'')\<rparr>)) [])
      = js ''other42''"
    by (simp add: orElse_def js_eval)
  have b: "post_link example_libs example_gen 6000 (js ''65a1b2c3d4e5f60718293a4e'')
       (js ''65a1b2c3d4e5f60718293a00'')
       (Inr (example_create\<lparr>cv_code := Some (js ''other42'')\<rparr>)) [example_link, other_link]
     = Some (Message 409 (js ''Code already taken''), [example_link, other_link])"
    using T [THEN conjunct2, THEN conjunct2, THEN conjunct2, THEN conjunct1, THEN spec,
        of "example_create\<lparr>cv_code := Some (js ''other42'')\<rparr>"]
      custom
    by (simp add: example_create_safe) (simp add: other_link_def js_def)
  have c: "patch_link example_libs 6000 (js ''65a1b2c3d4e5f60718293a00'')
       (js ''65a1b2c3d4e5f60718293a4d'') (Inr example_update) [example_link, other_link]
     = (Message 409 (js ''Code already taken''), [example_link, other_link])"
    using T [where params_id = "js ''65a1b2c3d4e5f60718293a4d''", THEN conjunct2, THEN conjunct2,
        THEN conjunct2, THEN conjunct2, THEN spec, THEN spec, THEN spec,
        of example_update "js ''abc1234''" example_link]
    by (simp add: example_update_def example_link_def truthy_def js_def)
  have slugs: "\<forall>v c. (Inr example_update :: jsstr + update_value) = Inr v \<and> uv_code v = Some c \<longrightarrow> slug c"
    by (simp add: example_update_def slug_def key_char_def js_def)
  have d: "distinct (map code (snd (patch_link example_libs 6000 (js ''65a1b2c3d4e5f60718293a00'')
       (js ''65a1b2c3d4e5f60718293a4b'') (Inr example_update) [example_link, other_link])))"
    using T [where uval = "Inr example_update" and params_id = "js ''65a1b2c3d4e5f60718293a4b''",
        THEN conjunct2, THEN conjunct1]
      slugs
    by blast
  show ?thesis
    using a b c d by (auto simp: example_link_def other_link_def)
qed

text \<open>
  The claim as written answers every taken code with 409. Both routes check the long
  URL first: \<open>{"longUrl": "ftp://example.org/", "code": "other42"}\<close>, whose code the
  second link holds, is answered 400 "Unsafe URL" by \<open>POST /api/links\<close> and by
  \<open>PATCH /api/links/:id\<close> on the first link.
\<close>

theorem code_uniqueness_preserved_counterexample:
  "code other_link = js ''other42'' \<and> link_id other_link \<noteq> link_id example_link \<and>
   post_link example_libs example_gen 6000 (js ''65a1b2c3d4e5f60718293a4e'')
       (js ''65a1b2c3d4e5f60718293a00'')
       (Inr (example_create\<lparr>cv_longUrl := js ''ftp://example.org/'',
                             cv_code := Some (js ''other42'')\<rparr>))
       [example_link, other_link]
     = Some (Message 400 (js ''Unsafe URL''), [example_link, other_link]) \<and>
   patch_link example_libs 6000 (js ''65a1b2c3d4e5f60718293a00'')
       (js ''65a1b2c3d4e5f60718293a4b'')
       (Inr (example_update\<lparr>uv_longUrl := Some (js ''ftp://example.org/''),
                             uv_code := Some (js ''other42'')\<rparr>))
       [example_link, other_link]
     = (Message 400 (js ''Unsafe URL''), [example_link, other_link]) \<and>
   Message 400 (js ''Unsafe URL'') \<noteq> Message 409 (js ''Code already taken'')"
proof -
  have u: "\<not> isSafeUrl (js ''ftp://example.org/'')"
    by (simp add: isSafeUrl_def http_s_def js_eval)
  have ne: "js ''ftp://example.org/'' \<noteq> []"
    by (simp add: js_def)
  have a: "post_link example_libs example_gen 6000 (js ''65a1b2c3d4e5f60718293a4e'')
       (js ''65a1b2c3d4e5f60718293a00'')
       (Inr (example_create\<lparr>cv_longUrl := js ''ftp://example.org/'',
                             cv_code := Some (js ''other42'')\<rparr>))
       [example_link, other_link]
     = Some (Message 400 (js ''Unsafe URL''), [example_link, other_link])"
    using u by (simp add: post_link_def)
  have b: "patch_link example_libs 6000 (js ''65a1b2c3d4e5f60718293a00'')
       (js ''65a1b2c3d4e5f60718293a4b'')
       (Inr (example_update\<lparr>uv_longUrl := Some (js ''ftp://example.org/''),
                             uv_code := Some (js ''other42'')\<rparr>))
       [example_link, other_link]
     = (Message 400 (js ''Unsafe URL''), [example_link, other_link])"
    using u ne by (simp add: patch_link_def truthy_def orElse_def)
  have c: "code other_link = js ''other42''" "link_id other_link \<noteq> link_id example_link"
    by (simp_all add: other_link_def example_link_def js_def)
  have d: "Message 400 (js ''Unsafe URL'') \<noteq> Message 409 (js ''Code already taken'')"
    by simp
  show ?thesis using a b c d by (intro conjI)
qed

section \<open>The URL safety check\<close>

text \<open>
  Claim C9. Creating a link, and updating its long URL, answer 400 "Unsafe URL" and
  leave the links unchanged exactly when \<open>isSafeUrl\<close> rejects the URL (lemmas
  \<open>post_link_unsafe_iff\<close> and \<open>patch_link_unsafe_iff\<close>). The check itself does not reject
  every URL into a private range: the scheme test ignores case, the patterns for 10.x,
  192.168.x and 172.16 to 172.31 do not, so such an address behind an upper-case scheme
  passes, while the pattern for localhost, which carries the flag \<open>i\<close>, still rejects.
  The theorem evaluates the check and both routes at such URLs: the links are stored.
\<close>

theorem uppercase_scheme_passes_safety_check:
  "isSafeUrl (js ''HTTP://10.0.0.1/'') \<and> \<not> isSafeUrl (js ''http://10.0.0.1/'') \<and>
   isSafeUrl (js ''Https://192.168.1.1/admin'') \<and> \<not> isSafeUrl (js ''https://192.168.1.1/admin'') \<and>
   isSafeUrl (js ''HTTP://172.16.0.9/'') \<and> \<not> isSafeUrl (js ''http://172.16.0.9/'') \<and>
   \<not> isSafeUrl (js ''HTTP://localhost/'') \<and>
   (\<exists>doc. post_link example_libs example_gen 6000 (js ''65a1b2c3d4e5f60718293a4e'')
             (js ''65a1b2c3d4e5f60718293a00'')
             (Inr (example_create\<lparr>cv_longUrl := js ''HTTP://10.0.0.1/''\<rparr>)) []
           = Some (LinkJson doc (buildShortUrl example_libs doc), [doc]) \<and>
          longUrl doc = js ''HTTP://10.0.0.1/'') \<and>
   (\<exists>doc. patch_link example_libs 6000 (js ''65a1b2c3d4e5f60718293a00'')
             (js ''65a1b2c3d4e5f60718293a4b'')
             (Inr (example_update\<lparr>uv_code := None,
                                   uv_longUrl := Some (js ''Https://192.168.1.1/admin'')\<rparr>))
             [example_link]
           = (LinkJson doc (buildShortUrl example_libs doc), [doc]) \<and>
          longUrl doc = js ''Https://192.168.1.1/admin'')"
proof -
  have s1: "isSafeUrl (js ''HTTP://10.0.0.1/'')" "\<not> isSafeUrl (js ''http://10.0.0.1/'')"
    by (simp_all add: isSafeUrl_def http_s_def privateNets_def js_eval)
  have s2: "isSafeUrl (js ''Https://192.168.1.1/admin'')"
      "\<not> isSafeUrl (js ''https://192.168.1.1/admin'')"
    by (simp_all add: isSafeUrl_def http_s_def privateNets_def js_eval)
  have s3: "isSafeUrl (js ''HTTP://172.16.0.9/'')" "\<not> isSafeUrl (js ''http://172.16.0.9/'')"
    by (simp_all add: isSafeUrl_def http_s_def privateNets_def js_eval)
  have s4: "\<not> isSafeUrl (js ''HTTP://localhost/'')"
    by (simp add: isSafeUrl_def http_s_def privateNets_def js_eval)
  have f: "fresh_code example_gen [] 0 = Some (js ''abc1234'')"
    by (subst fresh_code.simps) (simp add: findOne_def example_gen_def)
  have p: "post_link example_libs example_gen 6000 (js ''65a1b2c3d4e5f60718293a4e'')
             (js ''65a1b2c3d4e5f60718293a00'')
             (Inr (example_create\<lparr>cv_longUrl := js ''HTTP://10.0.0.1/''\<rparr>)) []
      = Some (LinkJson (new_link example_libs 6000 (js ''65a1b2c3d4e5f60718293a4e'')
                 (js ''65a1b2c3d4e5f60718293a00'') (js ''abc1234'')
                 (example_create\<lparr>cv_longUrl := js ''HTTP://10.0.0.1/''\<rparr>))
               (buildShortUrl example_libs (new_link example_libs 6000 (js ''65a1b2c3d4e5f60718293a4e'')
                 (js ''65a1b2c3d4e5f60718293a00'') (js ''abc1234'')
                 (example_create\<lparr>cv_longUrl := js ''HTTP://10.0.0.1/''\<rparr>))),
              [new_link example_libs 6000 (js ''65a1b2c3d4e5f60718293a4e'')
                 (js ''65a1b2c3d4e5f60718293a00'') (js ''abc1234'')
                 (example_create\<lparr>cv_longUrl := js ''HTTP://10.0.0.1/''\<rparr>)])"
    using s1(1) f
    by (simp add: post_link_def choose_code_def example_create_def orElse_def trim_def Let_def)
  have q: "patch_link example_libs 6000 (js ''65a1b2c3d4e5f60718293a00'')
             (js ''65a1b2c3d4e5f60718293a4b'')
             (Inr (example_update\<lparr>uv_code := None,
                                   uv_longUrl := Some (js ''Https://192.168.1.1/admin'')\<rparr>))
             [example_link]
      = (LinkJson (apply_set example_libs 6000 (example_update\<lparr>uv_code := None,
                                   uv_longUrl := Some (js ''Https://192.168.1.1/admin'')\<rparr>) example_link)
           (buildShortUrl example_libs (apply_set example_libs 6000 (example_update\<lparr>uv_code := None,
                                   uv_longUrl := Some (js ''Https://192.168.1.1/admin'')\<rparr>) example_link)),
         [apply_set example_libs 6000 (example_update\<lparr>uv_code := None,
                                   uv_longUrl := Some (js ''Https://192.168.1.1/admin'')\<rparr>) example_link])"
    using s2(1)
    by (simp add: patch_link_def example_update_def truthy_def orElse_def findOne_def
        example_cast_canonical Let_def)
       (simp add: example_link_def)
  show ?thesis
    using s1 s2 s3 s4 unfolding p q
    by (simp add: new_link_def apply_set_def Let_def example_update_def)
qed

section \<open>The analytics overview\<close>

text \<open>
  Claim C6. For every owner, range, comparison flag, timezone offset, filter set,
  breakdown and store, read as one snapshot, \<open>totals.clicks\<close> of the overview payload is the sum of
  \<open>clicks\<close> over the rows of \<open>byDay\<close>: both aggregate the clicks that \<open>matchNow\<close> selects,
  and grouping by time bucket counts each of them once. The same holds for the
  comparison window, and for the payload of \<open>GET /api/analytics/overview\<close>.
\<close>

theorem overview_totals_equal_byDay_sum:
  "sum_list (map snd (byDay (buildOverviewPayload L now owner r0 compare tzMin filters breakdown d)))
     = totals_clicks (buildOverviewPayload L now owner r0 compare tzMin filters breakdown d) \<and>
   sum_list (map snd (byDayPrev (buildOverviewPayload L now owner r0 compare tzMin filters breakdown d)))
     = totalsPrev_clicks (buildOverviewPayload L now owner r0 compare tzMin filters breakdown d) \<and>
   sum_list (map snd (byDay (overview_get L now user q d)))
     = totals_clicks (overview_get L now user q d)"
  by (simp add: buildOverviewPayload_def overview_get_def Let_def byDay_total totals_count)

theorem overview_totals_equal_byDay_sum_witness:
  "sum_list (map snd (byDay (buildOverviewPayload example_libs 100000000
       (js ''65a1b2c3d4e5f60718293a00'') None False (Num 0) empty_filters (js ''none'')
       \<lparr> links = [example_link], clicks = example_clicks \<rparr>))) = 2 \<and>
   totals_clicks (buildOverviewPayload example_libs 100000000
       (js ''65a1b2c3d4e5f60718293a00'') None False (Num 0) empty_filters (js ''none'')
       \<lparr> links = [example_link], clicks = example_clicks \<rparr>) = 2"
proof -
  have m: "filter (matchNow [js ''65a1b2c3d4e5f60718293a4b'']
              (100000000 - window (parseRange example_libs None)) empty_filters) example_clicks
           = example_clicks"
    by (simp add: example_clicks_def matchNow_def Click_create_def example_payload_def
        click_payload_def example_link_def filters_match_def has_def empty_filters_def
        window_def parseRange_def example_libs_def orElse_def MS_PER_DAY_def MS_PER_HOUR_def
        MS_PER_MIN_def Let_def js_def)
  have t: "totals_clicks (buildOverviewPayload example_libs 100000000
       (js ''65a1b2c3d4e5f60718293a00'') None False (Num 0) empty_filters (js ''none'')
       \<lparr> links = [example_link], clicks = example_clicks \<rparr>) = 2"
    using m
    by (simp add: buildOverviewPayload_def Let_def totals_count)
       (simp add: example_link_def example_clicks_def)
  show ?thesis
    using overview_totals_equal_byDay_sum [where L = example_libs and now = 100000000
        and owner = "js ''65a1b2c3d4e5f60718293a00''" and ?r0.0 = None and compare = False
        and tzMin = "Num 0" and filters = empty_filters and breakdown = "js ''none''"
        and d = "\<lparr> links = [example_link], clicks = example_clicks \<rparr>"] t
    by simp
qed

section \<open>Password reset requests\<close>

text \<open>
  Claim C10. With \<open>DEV_MAIL\<close> off, \<open>POST /api/auth/forgot\<close> on a value that passed
  validation answers 200 with the message "If the email exists, a code has been sent."
  and no \<open>devCode\<close>, whatever users exist: two runs that differ in the users (and in
  time, code and mail outcome) give the same reply.
\<close>

theorem forgot_reply_hides_account:
  "fst (forgot False L now digits smtp_ok (Inr e) users)
     = AuthJson 200 (js ''If the email exists, a code has been sent.'') None \<and>
   fst (forgot False L now digits smtp_ok (Inr e) users)
     = fst (forgot False L now' digits' smtp_ok' (Inr e) users')"
  by (simp add: forgot_def Let_def split: option.splits)

theorem forgot_reply_hides_account_witness:
  "fst (forgot False example_libs 5000 (js ''123456'') True (Inr (js ''ann@example.com''))
         [example_user])
     = AuthJson 200 (js ''If the email exists, a code has been sent.'') None \<and>
   fst (forgot False example_libs 5000 (js ''123456'') True (Inr (js ''ann@example.com'')) [])
     = AuthJson 200 (js ''If the email exists, a code has been sent.'') None"
  using forgot_reply_hides_account [where L = example_libs and now = 5000
      and digits = "js ''123456''" and smtp_ok = True and e = "js ''ann@example.com''"
      and users = "[example_user]" and now' = 5000 and digits' = "js ''123456''"
      and smtp_ok' = True and users' = "[]"]
  by metis

lemma forgot_existing_account_gets_code:
  "snd (forgot False example_libs 5000 (js ''123456'') True (Inr (js ''ann@example.com''))
         [example_user])
     = ([example_user\<lparr> resetCode := Some (js ''123456''), resetCodeExpires := Some 605000,
                         user_updatedAt := 5000 \<rparr>],
        [\<lparr> mail_to = js ''ann@example.com'', mail_subject = js ''Your password reset code'',
            mail_title = js ''Reset your password'', mail_code = js ''123456'',
            mail_hint = js ''Use this code on the reset page.'' \<rparr>]) \<and>
   fst (forgot True example_libs 5000 (js ''123456'') True (Inr (js ''ann@example.com''))
         [example_user])
     = AuthJson 200 (js ''If the email exists, a code has been sent.'') (Some (js ''123456''))"
proof -
  have t: "trim (js ''ann@example.com'') = js ''ann@example.com''"
    by (simp add: js_eval)
  show ?thesis
    by (simp add: forgot_def example_libs_def t findOne_def example_user_def addMinutes_def
        RESET_CODE_EXP_MIN_def Let_def)
qed

section \<open>Saved views and annotations belong to their user\<close>

text \<open>
  Claim C7. For an authenticated user \<open>u\<close>: the two listings return only documents
  whose \<open>ownerId\<close> is \<open>u\<close>; a creation appends one document with \<open>ownerId = u\<close> and
  changes nothing else; a deletion removes a document only if its \<open>ownerId\<close> is \<open>u\<close> and
  its id is what the id asked for casts to, and a deletion that throws on its id removes
  nothing. Hence, for every sequence of saved-view and annotation requests of \<open>u\<close>, the
  documents of any other user are the same afterwards (nothing of theirs is deleted or
  changed), and the replies are the same on any two stores that agree on the documents
  of \<open>u\<close> (nothing of theirs is read).
\<close>

theorem views_and_annotations_per_user:
  "(\<forall>js. get_views u s = AViews js \<longrightarrow>
      (\<forall>j\<in>set js. \<exists>v\<in>set (views s). view_ownerId v = u \<and> j = view_to_json v)) \<and>
   (\<forall>js. get_annotations L now u r0 s = AAnnotations js \<longrightarrow>
      (\<forall>j\<in>set js. \<exists>a\<in>set (annotations s). ann_ownerId a = u \<and> j = ann_to_json a)) \<and>
   (\<forall>i s'. post_view u now newId vb s = (AOkId i, s') \<longrightarrow>
      (\<exists>v. views s' = views s @ [v] \<and> view_ownerId v = u) \<and> annotations s' = annotations s) \<and>
   (\<forall>i s'. post_annotation L u now newId ab s = (AOkId i, s') \<longrightarrow>
      (\<exists>a. annotations s' = annotations s @ [a] \<and> ann_ownerId a = u) \<and> views s' = views s) \<and>
   (\<forall>v\<in>set (views s). v \<notin> set (views (snd (delete_view L u i s))) \<longrightarrow>
      view_ownerId v = u \<and> castObjectId L i = Some (view_id v)) \<and>
   (\<forall>a\<in>set (annotations s). a \<notin> set (annotations (snd (delete_annotation L u i s))) \<longrightarrow>
      ann_ownerId a = u \<and> castObjectId L i = Some (ann_id a)) \<and>
   annotations (snd (delete_view L u i s)) = annotations s \<and>
   views (snd (delete_annotation L u i s)) = views s \<and>
   (castObjectId L i = None \<longrightarrow>
      delete_view L u i s = (AThrown, s) \<and> delete_annotation L u i s = (AThrown, s)) \<and>
   (\<forall>w. w \<noteq> u \<longrightarrow>
      filter (\<lambda>v. view_ownerId v = w) (views (snd (run L u ops s)))
        = filter (\<lambda>v. view_ownerId v = w) (views s) \<and>
      filter (\<lambda>a. ann_ownerId a = w) (annotations (snd (run L u ops s)))
        = filter (\<lambda>a. ann_ownerId a = w) (annotations s)) \<and>
   (\<forall>s2. filter (\<lambda>v. view_ownerId v = u) (views s2) = filter (\<lambda>v. view_ownerId v = u) (views s) \<and>
         filter (\<lambda>a. ann_ownerId a = u) (annotations s2)
           = filter (\<lambda>a. ann_ownerId a = u) (annotations s) \<longrightarrow>
         fst (run L u ops s2) = fst (run L u ops s))"
proof -
  have list_v: "\<forall>js. get_views u s = AViews js \<longrightarrow>
      (\<forall>j\<in>set js. \<exists>v\<in>set (views s). view_ownerId v = u \<and> j = view_to_json v)"
    by (auto simp: get_views_def)
  have list_a: "\<forall>js. get_annotations L now u r0 s = AAnnotations js \<longrightarrow>
      (\<forall>j\<in>set js. \<exists>a\<in>set (annotations s). ann_ownerId a = u \<and> j = ann_to_json a)"
    by (auto simp: get_annotations_def Let_def)
  have new_v: "\<forall>i s'. post_view u now newId vb s = (AOkId i, s') \<longrightarrow>
      (\<exists>v. views s' = views s @ [v] \<and> view_ownerId v = u) \<and> annotations s' = annotations s"
    by (auto simp: post_view_def Let_def split: if_splits)
  have new_a: "\<forall>i s'. post_annotation L u now newId ab s = (AOkId i, s') \<longrightarrow>
      (\<exists>a. annotations s' = annotations s @ [a] \<and> ann_ownerId a = u) \<and> views s' = views s"
    by (auto simp: post_annotation_def split: if_splits option.splits)
  have del_v: "\<forall>v\<in>set (views s). v \<notin> set (views (snd (delete_view L u i s))) \<longrightarrow>
      view_ownerId v = u \<and> castObjectId L i = Some (view_id v)"
  proof (cases "castObjectId L i")
    case None
    then show ?thesis by (simp add: delete_view_def)
  next
    case (Some j)
    then show ?thesis
      using deleteOne_removed [of _ "views s" "\<lambda>v. view_id v = j \<and> view_ownerId v = u"]
      by (auto simp: delete_view_def)
  qed
  have del_a: "\<forall>a\<in>set (annotations s). a \<notin> set (annotations (snd (delete_annotation L u i s))) \<longrightarrow>
      ann_ownerId a = u \<and> castObjectId L i = Some (ann_id a)"
  proof (cases "castObjectId L i")
    case None
    then show ?thesis by (simp add: delete_annotation_def)
  next
    case (Some j)
    then show ?thesis
      using deleteOne_removed [of _ "annotations s" "\<lambda>a. ann_id a = j \<and> ann_ownerId a = u"]
      by (auto simp: delete_annotation_def)
  qed
  have keep_a: "annotations (snd (delete_view L u i s)) = annotations s"
    by (simp add: delete_view_def split: option.splits)
  have keep_v: "views (snd (delete_annotation L u i s)) = views s"
    by (simp add: delete_annotation_def split: option.splits)
  have thrown: "castObjectId L i = None \<longrightarrow>
      delete_view L u i s = (AThrown, s) \<and> delete_annotation L u i s = (AThrown, s)"
    by (simp add: delete_view_def delete_annotation_def)
  have frame: "\<forall>w. w \<noteq> u \<longrightarrow>
      filter (\<lambda>v. view_ownerId v = w) (views (snd (run L u ops s)))
        = filter (\<lambda>v. view_ownerId v = w) (views s) \<and>
      filter (\<lambda>a. ann_ownerId a = w) (annotations (snd (run L u ops s)))
        = filter (\<lambda>a. ann_ownerId a = w) (annotations s)"
    using run_frame [of _ u L ops s] by (simp add: own_views_def own_annotations_def)
  have own: "\<forall>s2. filter (\<lambda>v. view_ownerId v = u) (views s2) = filter (\<lambda>v. view_ownerId v = u) (views s) \<and>
         filter (\<lambda>a. ann_ownerId a = u) (annotations s2)
           = filter (\<lambda>a. ann_ownerId a = u) (annotations s) \<longrightarrow>
         fst (run L u ops s2) = fst (run L u ops s)"
  proof (intro allI impI)
    fix s2 :: astore
    assume eq: "filter (\<lambda>v. view_ownerId v = u) (views s2)
                  = filter (\<lambda>v. view_ownerId v = u) (views s) \<and>
                filter (\<lambda>a. ann_ownerId a = u) (annotations s2)
                  = filter (\<lambda>a. ann_ownerId a = u) (annotations s)"
    have v: "own_views u s2 = own_views u s"
      unfolding own_views_def using eq by (rule conjunct1)
    have a: "own_annotations u s2 = own_annotations u s"
      unfolding own_annotations_def using eq by (rule conjunct2)
    show "fst (run L u ops s2) = fst (run L u ops s)"
      using v a by (rule run_own)
  qed
  show ?thesis
    by (intro conjI list_v list_a new_v new_a del_v del_a keep_a keep_v thrown frame own)
qed

theorem views_and_annotations_per_user_witness:
  "filter (\<lambda>v. view_ownerId v = bob)
      (views (snd (run example_libs alice alices_ops example_astore))) = [bobs_view] \<and>
   filter (\<lambda>a. ann_ownerId a = bob)
      (annotations (snd (run example_libs alice alices_ops example_astore))) = [bobs_marker] \<and>
   fst (run example_libs alice alices_ops \<lparr> views = [], annotations = [] \<rparr>)
     = fst (run example_libs alice alices_ops example_astore)"
proof -
  note T = views_and_annotations_per_user
    [where u = alice and s = example_astore and L = example_libs and ops = alices_ops]
  note frame = T [THEN conjunct2, THEN conjunct2, THEN conjunct2, THEN conjunct2, THEN conjunct2,
      THEN conjunct2, THEN conjunct2, THEN conjunct2, THEN conjunct2, THEN conjunct1, rule_format]
  note own = T [THEN conjunct2, THEN conjunct2, THEN conjunct2, THEN conjunct2, THEN conjunct2,
      THEN conjunct2, THEN conjunct2, THEN conjunct2, THEN conjunct2, THEN conjunct2, rule_format]
  have ne: "bob \<noteq> alice"
    by (simp add: alice_def bob_def js_def)
  have bv: "view_ownerId bobs_view = bob" and bm: "ann_ownerId bobs_marker = bob"
    by (simp_all add: bobs_view_def bobs_marker_def)
  have a: "filter (\<lambda>v. view_ownerId v = bob)
      (views (snd (run example_libs alice alices_ops example_astore))) = [bobs_view]"
    using frame [OF ne, THEN conjunct1] bv by (simp add: example_astore_def)
  have b: "filter (\<lambda>a. ann_ownerId a = bob)
      (annotations (snd (run example_libs alice alices_ops example_astore))) = [bobs_marker]"
    using frame [OF ne, THEN conjunct2] bm by (simp add: example_astore_def)
  have c: "fst (run example_libs alice alices_ops \<lparr> views = [], annotations = [] \<rparr>)
     = fst (run example_libs alice alices_ops example_astore)"
  proof (rule own)
    show "filter (\<lambda>v. view_ownerId v = alice) (views \<lparr> views = [], annotations = [] \<rparr>)
            = filter (\<lambda>v. view_ownerId v = alice) (views example_astore) \<and>
          filter (\<lambda>a. ann_ownerId a = alice) (annotations \<lparr> views = [], annotations = [] \<rparr>)
            = filter (\<lambda>a. ann_ownerId a = alice) (annotations example_astore)"
      using ne bv bm by (simp add: example_astore_def)
  qed
  show ?thesis using a b c by (intro conjI)
qed

lemma alice_reads_nothing_of_bob:
  "fst (run example_libs alice alices_ops example_astore)
     = [AViews [], AOk, AOk, AThrown, AOk, AOkId (js ''65a1b2c3d4e5f60718293a01''),
        AViews [\<lparr> vj_id = js ''65a1b2c3d4e5f60718293a01'', vj_name = js ''Mine'',
                  vj_range = js ''7d'', vj_compare = False, vj_filters = empty_filters,
                  vj_breakdown = js ''none'', vj_updatedAt = 5000 \<rparr>],
        AAnnotations []]"
  by (simp add: alices_ops_def delete_view_def delete_annotation_def
        example_cast_canonical example_cast_upper example_cast_none)
     (simp add: example_astore_def get_views_def post_view_def get_annotations_def
        view_to_json_def bobs_view_def bobs_marker_def alice_def bob_def truthy_def orElse_def
        Let_def js_eval)

lemma delete_view_casts_id:
  "snd (delete_view example_libs bob (js ''65A1B2C3D4E5F60718293B01'') example_astore)
     = \<lparr> views = [], annotations = [bobs_marker] \<rparr> \<and>
   delete_view example_libs alice (js ''65A1B2C3D4E5F60718293B01'') example_astore
     = (AOk, example_astore) \<and>
   delete_view example_libs bob (js ''bobs-view'') example_astore = (AThrown, example_astore)"
  by (simp add: delete_view_def example_cast_upper example_cast_none example_astore_def
      bobs_view_def alice_def bob_def)
     (simp add: js_def)

end
